theory Spec2Isabelle
  imports Main "HOL-Library.Sublist" "HOL-Library.AList" "HOL-Library.Word"
begin

section \<open>JavaScript strings and the text primitive of the replicated document\<close>

text \<open>
  A JavaScript string is a sequence of UTF-16 code units; \<open>length\<close>, indexing and
  \<open>slice\<close> all count code units, and so do the positions of \<open>Y.Text\<close>. A character
  outside the Basic Multilingual Plane is two units, a high surrogate
  (\<open>0xD800\<close> to \<open>0xDBFF\<close>) followed by a low one. The model takes the text a hook
  edits as a list of 16-bit words and JavaScript numbers that hold lengths and
  positions as \<^typ>\<open>int\<close>, so that a subtraction which could go below zero is
  visible. Store identifiers and status names, which are only compared, are
  \<^typ>\<open>string\<close>s.
\<close>

type_synonym codeUnit = "16 word"
type_synonym jsstring = "codeUnit list"

definition js :: "string \<Rightarrow> jsstring" where
  \<comment> \<open>a literal of ASCII characters as a JavaScript string\<close>
  "js s = map of_char s"

definition charAt :: "jsstring \<Rightarrow> int \<Rightarrow> codeUnit option" where
  \<comment> \<open>\<open>s[i]\<close>; \<open>None\<close> is \<open>undefined\<close>, the result of an out-of-range read.\<close>
  "charAt s i = (if 0 \<le> i \<and> i < int (length s) then Some (s ! nat i) else None)"

definition slice :: "jsstring \<Rightarrow> int \<Rightarrow> int \<Rightarrow> jsstring" where
  \<comment> \<open>\<open>s.slice(a, b)\<close>: negative arguments count from the end, both are clamped.\<close>
  "slice s a b =
     (let n = int (length s);
          from = (if a < 0 then max (n + a) 0 else min a n);
          to = (if b < 0 then max (n + b) 0 else min b n)
      in take (nat (to - from)) (drop (nat from) s))"

text \<open>
  \<open>Y.Text\<close> is an external collaborator. A plain text (no embeds, no formatting) is
  the list of its items that are not deleted, in order; an item holds the units that one
  \<open>insert\<close> put in, or what a split left of them, and the content of the text is the
  concatenation of the items. When the library merges neighbouring items at the end of a
  transaction the content does not change, so the model keeps them apart.

  A position inside an item splits the item. The library does not split a surrogate
  pair: when the unit before the split is a high surrogate, it and the unit after the
  split are both replaced by \<open>U+FFFD\<close> (\<open>ContentString.splice\<close>). Positions and
  lengths beyond the end of the text are clamped, \<open>insert\<close> of an empty string and
  \<open>delete\<close> of length zero do nothing.
\<close>

type_synonym YText = "jsstring list"

definition toString :: "YText \<Rightarrow> jsstring" where
  "toString y = concat y"

definition ytext_length :: "YText \<Rightarrow> int" where
  "ytext_length y = int (length (concat y))"

definition isHighSurrogate :: "codeUnit \<Rightarrow> bool" where
  "isHighSurrogate c = (0xD800 \<le> c \<and> c \<le> 0xDBFF)"

definition contentSplice :: "jsstring \<Rightarrow> nat \<Rightarrow> jsstring \<times> jsstring" where
  \<comment> \<open>an item's units split at an offset: the part that stays and the part that follows\<close>
  "contentSplice str offset =
     (let right = drop offset str;
          left = take offset str
      in if left \<noteq> [] \<and> isHighSurrogate (last left)
         then (butlast left @ [0xFFFD], 0xFFFD # drop 1 right)
         else (left, right))"

fun findPosition :: "YText \<Rightarrow> int \<Rightarrow> YText \<times> YText" where
  \<comment> \<open>the items before and after an index, the item that holds the index being split\<close>
  "findPosition [] count = ([], [])"
| "findPosition (item # right) count =
     (if \<not> count > 0 then ([], item # right)
      else if count < int (length item)
      then (let (a, b) = contentSplice item (nat count) in ([a], b # right))
      else (let (l, r) = findPosition right (count - int (length item)) in (item # l, r)))"

fun deleteText :: "YText \<Rightarrow> int \<Rightarrow> YText" where
  \<comment> \<open>the items that follow a position, after \<open>len\<close> units from there are deleted\<close>
  "deleteText [] len = []"
| "deleteText (item # right) len =
     (if \<not> len > 0 then item # right
      else if len < int (length item)
      then snd (contentSplice item (nat len)) # right
      else deleteText right (len - int (length item)))"

datatype textOp = Delete int int | Insert int jsstring

definition ytext_delete :: "YText \<Rightarrow> int \<Rightarrow> int \<Rightarrow> YText" where
  "ytext_delete y index len =
     (if len = 0 then y
      else let (l, r) = findPosition y index in l @ deleteText r len)"

definition ytext_insert :: "YText \<Rightarrow> int \<Rightarrow> jsstring \<Rightarrow> YText" where
  "ytext_insert y index text =
     (if int (length text) \<le> 0 then y
      else let (l, r) = findPosition y index in l @ [text] @ r)"

fun applyOp :: "textOp \<Rightarrow> YText \<Rightarrow> YText" where
  "applyOp (Delete index len) y = ytext_delete y index len"
| "applyOp (Insert index text) y = ytext_insert y index text"

definition applyOps :: "textOp list \<Rightarrow> YText \<Rightarrow> YText" where
  "applyOps ops y = fold applyOp ops y"

text \<open>A call on the document: one \<open>transact\<close> with the operations its body performs.\<close>

datatype docCall = Transact "textOp list"

fun applyCall :: "docCall \<Rightarrow> YText \<Rightarrow> YText" where
  "applyCall (Transact ops) y = applyOps ops y"

definition applyCalls :: "docCall list \<Rightarrow> YText \<Rightarrow> YText" where
  "applyCalls cs y = fold applyCall cs y"

section \<open>useOrbitText\<close>

text \<open>The first \<open>while\<close> loop of \<open>setOrbitText\<close>; the argument is the counter.\<close>

function prefixLoop :: "jsstring \<Rightarrow> jsstring \<Rightarrow> int \<Rightarrow> int" where
  "prefixLoop oldText newText commonPrefix =
     (if commonPrefix < int (length oldText) \<and>
         commonPrefix < int (length newText) \<and>
         charAt oldText commonPrefix = charAt newText commonPrefix
      then prefixLoop oldText newText (commonPrefix + 1)
      else commonPrefix)"
  by pat_completeness auto
termination
  by (relation "measure (\<lambda>(oldText, newText, i). nat (int (length oldText) - i))") auto

text \<open>The second loop, with the prefix length found by the first.\<close>

function suffixLoop :: "jsstring \<Rightarrow> jsstring \<Rightarrow> int \<Rightarrow> int \<Rightarrow> int" where
  "suffixLoop oldText newText commonPrefix commonSuffix =
     (if commonSuffix < int (length oldText) - commonPrefix \<and>
         commonSuffix < int (length newText) - commonPrefix \<and>
         charAt oldText (int (length oldText) - 1 - commonSuffix) =
           charAt newText (int (length newText) - 1 - commonSuffix)
      then suffixLoop oldText newText commonPrefix (commonSuffix + 1)
      else commonSuffix)"
  by pat_completeness auto
termination
  by (relation "measure (\<lambda>(oldText, newText, p, j). nat (int (length oldText) - p - j))") auto

definition commonPrefixOf :: "jsstring \<Rightarrow> jsstring \<Rightarrow> int" where
  "commonPrefixOf oldText newText = prefixLoop oldText newText 0"

definition commonSuffixOf :: "jsstring \<Rightarrow> jsstring \<Rightarrow> int" where
  "commonSuffixOf oldText newText =
     suffixLoop oldText newText (commonPrefixOf oldText newText) 0"

definition setOrbitText :: "jsstring \<Rightarrow> jsstring \<Rightarrow> docCall list" where
  \<comment> \<open>The first argument is \<open>ytext.toString()\<close> at the time of the call.\<close>
  "setOrbitText oldText newText =
     (if oldText = newText then []
      else
        let commonPrefix = commonPrefixOf oldText newText;
            commonSuffix = commonSuffixOf oldText newText
        in [Transact
             ((if commonPrefix + commonSuffix < int (length oldText)
               then [Delete commonPrefix (int (length oldText) - commonPrefix - commonSuffix)]
               else []) @
              (if commonPrefix + commonSuffix < int (length newText)
               then [Insert commonPrefix
                       (slice newText commonPrefix (int (length newText) - commonSuffix))]
               else []))])"

definition useOrbitText_getSnapshot :: "jsstring \<Rightarrow> jsstring \<Rightarrow> jsstring" where
  \<comment> \<open>The first argument is \<open>ytext.toString()\<close>, the second \<open>initialValue\<close>.\<close>
  "useOrbitText_getSnapshot existing initialValue =
     (if int (length existing) > 0 then existing else initialValue)"

definition mountEffect :: "YText \<Rightarrow> jsstring \<Rightarrow> textOp list" where
  \<comment> \<open>The \<open>useEffect\<close> body: the calls it makes on the text.\<close>
  "mountEffect ytext initialValue =
     (if ytext_length ytext = 0 \<and> int (length initialValue) > 0
      then [Insert 0 initialValue] else [])"

definition cutSafe :: "jsstring \<Rightarrow> int \<Rightarrow> bool" where
  \<comment> \<open>a cut of the text before position \<open>k\<close> does not follow a high surrogate\<close>
  "cutSafe t k = (k \<le> 0 \<or> int (length t) \<le> k \<or> \<not> isHighSurrogate (t ! nat (k - 1)))"

text \<open>All the operations of a list of calls, in order.\<close>

fun operations :: "docCall list \<Rightarrow> textOp list" where
  "operations [] = []"
| "operations (Transact ops # cs) = ops @ operations cs"

text \<open>
  Two characters outside the Basic Multilingual Plane with the same high surrogate:
  \<open>U+1F600\<close> and \<open>U+1F601\<close>.
\<close>

definition grinningFace :: jsstring where
  "grinningFace = [0xD83D, 0xDE00]"

definition beamingFace :: jsstring where
  "beamingFace = [0xD83D, 0xDE01]"

section \<open>The replicated document, the storage adapter and the network channel\<close>

text \<open>
  The collaborators of the store are libraries and browser objects. Each is modelled by
  the part of its interface that the store uses.

  A document is the list of the items (identified changes) it has integrated. A binary
  update is a list of items; applying one integrates the items the document does not
  have yet, and the document's \<open>update\<close> event is emitted only when there are such
  items. The full state encodes as the list of all items.
\<close>

type_synonym item = nat
type_synonym Uint8Array = "item list"

datatype origin = OriginNull | OriginUndefined | OriginObject nat
  \<comment> \<open>the transaction origin: \<open>null\<close> for a local write, \<open>undefined\<close> when
     \<open>Y.applyUpdate\<close> gets no third argument, otherwise the identity of an object\<close>

datatype observer = HandleUpdate | UpdateHandler nat
  \<comment> \<open>the functions given to \<open>ydoc.on("update", _)\<close>: the store's bound
     \<open>handleUpdate\<close>, and the closure number \<open>n\<close> made by \<open>TabSync.init\<close>\<close>

record YDoc =
  items :: "item list"
  observers :: "observer list"
  destroyed :: bool

definition newYDoc :: YDoc where
  "newYDoc = \<lparr>items = [], observers = [], destroyed = False\<rparr>"

definition encodeStateAsUpdate :: "YDoc \<Rightarrow> Uint8Array" where
  "encodeStateAsUpdate d = items d"

definition newContent :: "YDoc \<Rightarrow> Uint8Array \<Rightarrow> item list" where
  "newContent d u = filter (\<lambda>x. x \<notin> set (items d)) (remdups u)"

datatype outcome = Resolved | Rejected

text \<open>
  The \<open>StorageAdapter\<close> interface: a key to blob store, as an association list. An
  adapter whose \<open>failing\<close> flag is set rejects every call.
\<close>

record StorageAdapter =
  blobs :: "(string \<times> Uint8Array) list"
  failing :: bool

datatype loadResult = LoadRejected | Loaded "Uint8Array option"

definition adapter_load :: "StorageAdapter \<Rightarrow> string \<Rightarrow> loadResult" where
  "adapter_load a documentId =
     (if failing a then LoadRejected else Loaded (map_of (blobs a) documentId))"

definition adapter_save ::
  "StorageAdapter \<Rightarrow> string \<Rightarrow> Uint8Array \<Rightarrow> StorageAdapter \<times> outcome" where
  "adapter_save a documentId state =
     (if failing a then (a, Rejected)
      else (a\<lparr>blobs := AList.update documentId state (blobs a)\<rparr>, Resolved))"

definition adapter_dispose :: "StorageAdapter \<Rightarrow> StorageAdapter \<times> outcome" where
  "adapter_dispose a = (a, if failing a then Rejected else Resolved)"

record SyncMessage =
  msg_type :: string
  msg_storeId :: string
  msg_update :: Uint8Array

text \<open>
  \<open>TabSync\<close>. The field \<open>self\<close> is the identity of the instance (what \<open>this\<close>
  is compared with), \<open>channelOpen\<close> and \<open>onmessageSet\<close> are the state of its
  \<open>BroadcastChannel\<close>, and \<open>closures\<close> counts the handler closures made so far, so
  that each one has its own identity for \<open>ydoc.off\<close>.
\<close>

record TabSync =
  self :: nat
  tab_storeId :: string
  channelOpen :: bool
  onmessageSet :: bool
  updateHandler :: "nat option"
  closures :: nat

definition newTabSync :: "nat \<Rightarrow> string \<Rightarrow> TabSync" where
  "newTabSync ident sid =
     \<lparr>self = ident, tab_storeId = sid, channelOpen = True, onmessageSet = False,
      updateHandler = None, closures = 0\<rparr>"

text \<open>
  The \<open>WebsocketProvider\<close> of y-websocket: the three fields the store reads or
  writes. The library changes \<open>wsconnected\<close> and \<open>wsconnecting\<close> by itself as the
  socket opens and closes; \<open>connect()\<close> sets \<open>shouldConnect\<close> and \<open>disconnect()\<close>
  clears it.
\<close>

record WebsocketProvider =
  shouldConnect :: bool
  wsconnected :: bool
  wsconnecting :: bool

text \<open>
  The calls the store makes on its collaborators; a trace is a list of them. A timeout
  is named by its handle, a status listener by its identity.
\<close>

datatype effect =
    StorageLoad string
  | StorageSave string Uint8Array
  | StorageDispose
  | DocApply Uint8Array origin
  | DocDestroy
  | SetTimeout nat int
  | ClearTimeout nat
  | PostMessage SyncMessage
  | PostMessageError
  | ChannelClose
  | ProviderConnect
  | ProviderDisconnect
  | ProviderDestroy
  | Notify nat string

section \<open>OrbitStore\<close>

text \<open>
  The fields of the class, followed by the part of the environment its methods act on:
  \<open>timers\<close> are the timeouts that are set and have neither fired nor been cleared
  (each one runs \<open>this.persist()\<close> when it fires), \<open>nextTimer\<close> is the next handle
  \<open>setTimeout\<close> returns, and \<open>trace\<close> lists, in order, the calls made on the
  collaborators. Status listeners are callbacks; a callback is its identity, and the
  set of listeners is the list of its members in the order they were added. The numbers
  of the configuration are taken to be integers.
\<close>

record OrbitStore =
  ydoc :: YDoc
  storage :: "StorageAdapter option"
  tabSync :: "TabSync option"
  websocketProvider :: "WebsocketProvider option"
  persistDebounceMs :: int
  persistTimer :: "nat option"
  initialized :: bool
  websocketFailures :: int
  maxWebsocketFailures :: int
  storeId :: string
  statusListeners :: "nat list"
  timers :: "nat list"
  nextTimer :: nat
  trace :: "effect list"

record WebsocketOptions =
  maxFailures :: "int option"
  retryDelay :: "int option"

record OrbitConfig =
  cfg_storeId :: string
  cfg_storage :: "StorageAdapter option"
  cfg_enableTabSync :: "bool option"
  cfg_persistDebounceMs :: "int option"
  cfg_websocketUrl :: "string option"
  cfg_websocketOptions :: "WebsocketOptions option"

definition emit :: "effect \<Rightarrow> OrbitStore \<Rightarrow> OrbitStore" where
  "emit e s = s\<lparr>trace := trace s @ [e]\<rparr>"

text \<open>
  The constructor. The first argument is the identity of the \<open>TabSync\<close> object it may
  create. The provider is created with \<open>connect: false\<close>; its sub-protocol list plays
  no part in what follows and is left out.
\<close>

definition newOrbitStore :: "nat \<Rightarrow> OrbitConfig \<Rightarrow> OrbitStore" where
  "newOrbitStore ident config =
     \<lparr>ydoc = newYDoc\<lparr>observers :=
               (if cfg_storage config \<noteq> None then [HandleUpdate] else [])\<rparr>,
      storage = cfg_storage config,
      tabSync = (if cfg_enableTabSync config \<noteq> Some False
                 then Some (newTabSync ident (cfg_storeId config)) else None),
      websocketProvider =
        (if cfg_websocketUrl config \<noteq> None
         then Some \<lparr>shouldConnect = False, wsconnected = False, wsconnecting = False\<rparr>
         else None),
      persistDebounceMs = (case cfg_persistDebounceMs config of Some ms \<Rightarrow> ms | None \<Rightarrow> 300),
      persistTimer = None,
      initialized = False,
      websocketFailures = 0,
      maxWebsocketFailures =
        (case cfg_websocketOptions config of
           None \<Rightarrow> 3
         | Some opts \<Rightarrow> (case maxFailures opts of Some n \<Rightarrow> n | None \<Rightarrow> 3)),
      storeId = cfg_storeId config,
      statusListeners = [],
      timers = [],
      nextTimer = 0,
      trace = []\<rparr>"

subsection \<open>Timers and debounced persistence\<close>

definition clearTimeout :: "nat \<Rightarrow> OrbitStore \<Rightarrow> OrbitStore" where
  "clearTimeout t s = emit (ClearTimeout t) (s\<lparr>timers := removeAll t (timers s)\<rparr>)"

definition setTimeout :: "int \<Rightarrow> OrbitStore \<Rightarrow> nat \<times> OrbitStore" where
  "setTimeout ms s =
     (nextTimer s,
      emit (SetTimeout (nextTimer s) ms)
        (s\<lparr>timers := timers s @ [nextTimer s], nextTimer := Suc (nextTimer s)\<rparr>))"

definition handleUpdate :: "OrbitStore \<Rightarrow> OrbitStore" where
  "handleUpdate s =
     (let s1 = (case persistTimer s of Some t \<Rightarrow> clearTimeout t s | None \<Rightarrow> s);
          (t', s2) = setTimeout (persistDebounceMs s1) s1
      in s2\<lparr>persistTimer := Some t'\<rparr>)"

definition persist :: "OrbitStore \<Rightarrow> OrbitStore \<times> outcome" where
  "persist s =
     (case storage s of
        None \<Rightarrow> (s, Resolved)
      | Some a \<Rightarrow>
          let state = encodeStateAsUpdate (ydoc s);
              (a', r) = adapter_save a (storeId s) state
          in (emit (StorageSave (storeId s) state) (s\<lparr>storage := Some a'\<rparr>), r))"

definition timerFires :: "nat \<Rightarrow> OrbitStore \<Rightarrow> OrbitStore" where
  \<comment> \<open>the event loop runs the callback of a pending timeout; its promise is dropped\<close>
  "timerFires t s =
     (if t \<in> set (timers s) then fst (persist (s\<lparr>timers := removeAll t (timers s)\<rparr>)) else s)"

subsection \<open>TabSync and the document's update event\<close>

definition broadcastUpdate :: "Uint8Array \<Rightarrow> OrbitStore \<Rightarrow> OrbitStore" where
  \<comment> \<open>\<open>postMessage\<close> on a closed channel raises \<open>InvalidStateError\<close> and sends nothing\<close>
  "broadcastUpdate u s =
     (case tabSync s of
        None \<Rightarrow> s
      | Some ts \<Rightarrow>
          if channelOpen ts
          then emit (PostMessage \<lparr>msg_type = ''update'', msg_storeId = tab_storeId ts,
                                   msg_update = u\<rparr>) s
          else emit PostMessageError s)"

definition tab_updateHandler :: "Uint8Array \<Rightarrow> origin \<Rightarrow> OrbitStore \<Rightarrow> OrbitStore" where
  "tab_updateHandler u orig s =
     (case tabSync s of
        None \<Rightarrow> s
      | Some ts \<Rightarrow> if orig \<noteq> OriginObject (self ts) then broadcastUpdate u s else s)"

fun runObserver :: "Uint8Array \<Rightarrow> origin \<Rightarrow> observer \<Rightarrow> OrbitStore \<Rightarrow> OrbitStore" where
  "runObserver u orig HandleUpdate s = handleUpdate s"
| "runObserver u orig (UpdateHandler c) s = tab_updateHandler u orig s"

definition transact :: "Uint8Array \<Rightarrow> origin \<Rightarrow> OrbitStore \<Rightarrow> OrbitStore" where
  \<comment> \<open>a change of the document: the new items are integrated, then the \<open>update\<close>
     event goes to the observers in the order they were registered\<close>
  "transact u orig s =
     (let delta = newContent (ydoc s) u;
          s1 = s\<lparr>ydoc := (ydoc s)\<lparr>items := items (ydoc s) @ delta\<rparr>\<rparr>
      in if delta = [] then s1
         else fold (runObserver delta orig) (observers (ydoc s1)) s1)"

definition applyUpdate :: "Uint8Array \<Rightarrow> origin \<Rightarrow> OrbitStore \<Rightarrow> OrbitStore" where
  "applyUpdate u orig s = transact u orig (emit (DocApply u orig) s)"

definition localWrite :: "Uint8Array \<Rightarrow> OrbitStore \<Rightarrow> OrbitStore" where
  \<comment> \<open>a consumer's mutation through a handle of the document (\<open>map.set\<close>, \<open>text.insert\<close>)\<close>
  "localWrite w s = transact w OriginNull s"

definition tabSync_init :: "OrbitStore \<Rightarrow> OrbitStore" where
  "tabSync_init s =
     (case tabSync s of
        None \<Rightarrow> s
      | Some ts \<Rightarrow>
          s\<lparr>tabSync := Some (ts\<lparr>updateHandler := Some (closures ts),
                                 closures := Suc (closures ts),
                                 onmessageSet := True\<rparr>),
            ydoc := (ydoc s)\<lparr>observers := observers (ydoc s) @ [UpdateHandler (closures ts)]\<rparr>\<rparr>)"

definition onmessage :: "SyncMessage \<Rightarrow> OrbitStore \<Rightarrow> OrbitStore" where
  \<comment> \<open>a message event on the channel; without a handler, or on a closed channel, it is dropped\<close>
  "onmessage message s =
     (case tabSync s of
        None \<Rightarrow> s
      | Some ts \<Rightarrow>
          if channelOpen ts \<and> onmessageSet ts
          then (if msg_type message = ''update'' \<and> msg_storeId message = tab_storeId ts
                then applyUpdate (msg_update message) (OriginObject (self ts)) s
                else s)
          else s)"

definition tabSync_dispose :: "OrbitStore \<Rightarrow> OrbitStore" where
  "tabSync_dispose s =
     (case tabSync s of
        None \<Rightarrow> s
      | Some ts \<Rightarrow>
          let s1 = (case updateHandler ts of
                      Some c \<Rightarrow>
                        s\<lparr>ydoc := (ydoc s)\<lparr>observers :=
                                      remove1 (UpdateHandler c) (observers (ydoc s))\<rparr>,
                          tabSync := Some (ts\<lparr>updateHandler := None\<rparr>)\<rparr>
                    | None \<Rightarrow> s)
          in emit ChannelClose
               (s1\<lparr>tabSync := map_option (\<lambda>ts. ts\<lparr>channelOpen := False\<rparr>) (tabSync s1)\<rparr>))"


subsection \<open>The network channel and its circuit breaker\<close>

definition provider_connect :: "OrbitStore \<Rightarrow> OrbitStore" where
  "provider_connect s =
     emit ProviderConnect
       (s\<lparr>websocketProvider :=
            map_option (\<lambda>p. p\<lparr>shouldConnect := True\<rparr>) (websocketProvider s)\<rparr>)"

definition provider_disconnect :: "OrbitStore \<Rightarrow> OrbitStore" where
  "provider_disconnect s =
     emit ProviderDisconnect
       (s\<lparr>websocketProvider :=
            map_option (\<lambda>p. p\<lparr>shouldConnect := False\<rparr>) (websocketProvider s)\<rparr>)"

definition provider_destroy :: "OrbitStore \<Rightarrow> OrbitStore" where
  "provider_destroy s =
     emit ProviderDestroy
       (s\<lparr>websocketProvider :=
            map_option (\<lambda>p. p\<lparr>shouldConnect := False\<rparr>) (websocketProvider s)\<rparr>)"

definition onStatusChange :: "nat \<Rightarrow> OrbitStore \<Rightarrow> OrbitStore" where
  "onStatusChange listener s =
     (if listener \<in> set (statusListeners s) then s
      else s\<lparr>statusListeners := statusListeners s @ [listener]\<rparr>)"

definition offStatusChange :: "nat \<Rightarrow> OrbitStore \<Rightarrow> OrbitStore" where
  "offStatusChange listener s = s\<lparr>statusListeners := removeAll listener (statusListeners s)\<rparr>"

definition notifyListeners :: "string \<Rightarrow> OrbitStore \<Rightarrow> OrbitStore" where
  \<comment> \<open>\<open>this.statusListeners.forEach((l) => l(status))\<close>\<close>
  "notifyListeners status s = s\<lparr>trace := trace s @ map (\<lambda>l. Notify l status) (statusListeners s)\<rparr>"

text \<open>The two handlers that \<open>setupWebSocketErrorHandlers\<close> registers on the provider.\<close>

definition statusHandler :: "string \<Rightarrow> OrbitStore \<Rightarrow> OrbitStore" where
  "statusHandler status s =
     notifyListeners status
       (if status = ''connected'' then s\<lparr>websocketFailures := 0\<rparr> else s)"

definition connectionErrorHandler :: "OrbitStore \<Rightarrow> OrbitStore" where
  "connectionErrorHandler s =
     (let s1 = s\<lparr>websocketFailures := websocketFailures s + 1\<rparr>
      in if websocketFailures s1 \<ge> maxWebsocketFailures s1 \<and> websocketProvider s1 \<noteq> None
         then notifyListeners ''disconnected''
                (provider_disconnect
                   (s1\<lparr>websocketProvider :=
                         map_option (\<lambda>p. p\<lparr>shouldConnect := False\<rparr>) (websocketProvider s1)\<rparr>))
         else s1)"

datatype networkEvent = Status string | ConnectionError

fun network :: "networkEvent \<Rightarrow> OrbitStore \<Rightarrow> OrbitStore" where
  \<comment> \<open>an event of the provider; the handlers exist only when the store has a provider\<close>
  "network (Status status) s =
     (if websocketProvider s = None then s else statusHandler status s)"
| "network ConnectionError s =
     (if websocketProvider s = None then s else connectionErrorHandler s)"

definition networkEvents :: "networkEvent list \<Rightarrow> OrbitStore \<Rightarrow> OrbitStore" where
  "networkEvents es s = fold network es s"

definition useOrbitStatus_getSnapshot :: "OrbitStore \<Rightarrow> string" where
  "useOrbitStatus_getSnapshot s =
     (case websocketProvider s of
        None \<Rightarrow> ''disconnected''
      | Some provider \<Rightarrow>
          if wsconnected provider then ''connected''
          else if wsconnecting provider then ''connecting''
          else ''disconnected'')"

subsection \<open>init and dispose\<close>

text \<open>
  \<open>init\<close> is an async function: it runs up to its \<open>await\<close> of \<open>storage.load\<close>,
  returns to the caller, and goes on when the promise settles; other code runs in
  between. \<open>init_begin\<close> is the part before the \<open>await\<close> (the whole body when there is
  no storage adapter), \<open>init_resume\<close> the part after it.
\<close>

definition init_rest :: "OrbitStore \<Rightarrow> OrbitStore" where
  "init_rest s =
     (let s1 = (if tabSync s \<noteq> None then tabSync_init s else s);
          s2 = (if websocketProvider s1 \<noteq> None then provider_connect s1 else s1)
      in s2\<lparr>initialized := True\<rparr>)"

datatype initStep = InitReturned OrbitStore | InitAwaitsLoad OrbitStore loadResult

definition init_begin :: "OrbitStore \<Rightarrow> initStep" where
  "init_begin s =
     (if initialized s then InitReturned s
      else case storage s of
             Some a \<Rightarrow> InitAwaitsLoad (emit (StorageLoad (storeId s)) s) (adapter_load a (storeId s))
           | None \<Rightarrow> InitReturned (init_rest s))"

fun init_resume :: "loadResult \<Rightarrow> OrbitStore \<Rightarrow> OrbitStore \<times> outcome" where
  "init_resume LoadRejected s = (s, Rejected)"
| "init_resume (Loaded None) s = (init_rest s, Resolved)"
| "init_resume (Loaded (Some state)) s = (init_rest (applyUpdate state OriginUndefined s), Resolved)"

definition init :: "OrbitStore \<Rightarrow> OrbitStore \<times> outcome" where
  \<comment> \<open>\<open>await store.init()\<close> with nothing else running meanwhile\<close>
  "init s =
     (case init_begin s of
        InitReturned s' \<Rightarrow> (s', Resolved)
      | InitAwaitsLoad s' r \<Rightarrow> init_resume r s')"

definition init_twice_racing :: "OrbitStore \<Rightarrow> OrbitStore" where
  \<comment> \<open>\<open>store.init(); store.init();\<close> the second call starts before the first resumes\<close>
  "init_twice_racing s =
     (case init_begin s of
        InitReturned s1 \<Rightarrow>
          (case init_begin s1 of
             InitReturned s2 \<Rightarrow> s2
           | InitAwaitsLoad s2 r2 \<Rightarrow> fst (init_resume r2 s2))
      | InitAwaitsLoad s1 r1 \<Rightarrow>
          (case init_begin s1 of
             InitReturned s2 \<Rightarrow> fst (init_resume r1 s2)
           | InitAwaitsLoad s2 r2 \<Rightarrow> fst (init_resume r2 (fst (init_resume r1 s2)))))"

definition ydoc_destroy :: "OrbitStore \<Rightarrow> OrbitStore" where
  "ydoc_destroy s = emit DocDestroy (s\<lparr>ydoc := (ydoc s)\<lparr>observers := [], destroyed := True\<rparr>\<rparr>)"

definition dispose :: "OrbitStore \<Rightarrow> OrbitStore \<times> outcome" where
  \<comment> \<open>\<open>await store.dispose()\<close> with nothing else running meanwhile; a rejected
     \<open>await\<close> ends the call there\<close>
  "dispose s =
     (let s1 = (case persistTimer s of
                  Some t \<Rightarrow> (clearTimeout t s)\<lparr>persistTimer := None\<rparr>
                | None \<Rightarrow> s);
          (s2, r) = persist s1
      in if r = Rejected then (s2, Rejected)
         else
           let s3 = (if tabSync s2 \<noteq> None then tabSync_dispose s2 else s2);
               s4 = (if websocketProvider s3 \<noteq> None
                     then provider_destroy (provider_disconnect s3) else s3);
               s5 = ydoc_destroy s4
           in case storage s5 of
                None \<Rightarrow> (s5\<lparr>initialized := False\<rparr>, Resolved)
              | Some a \<Rightarrow>
                  let (a', r') = adapter_dispose a;
                      s6 = emit StorageDispose (s5\<lparr>storage := Some a'\<rparr>)
                  in if r' = Rejected then (s6, Rejected)
                     else (s6\<lparr>initialized := False\<rparr>, Resolved))"


subsection \<open>Everything that can happen to a store\<close>

text \<open>
  The calls a consumer can make and the events the environment can deliver, one at a
  time. \<open>ApplyUpdate\<close> is an update applied by any other party that holds the
  document (the network provider applies the deltas of remote peers this way).
\<close>

datatype storeEvent =
    Init
  | InitTwiceRacing
  | Persist
  | Dispose
  | LocalWrite Uint8Array
  | ApplyUpdate Uint8Array origin
  | TimerFires nat
  | Message SyncMessage
  | Network networkEvent
  | OnStatusChange nat
  | OffStatusChange nat

fun step :: "storeEvent \<Rightarrow> OrbitStore \<Rightarrow> OrbitStore" where
  "step Init s = fst (init s)"
| "step InitTwiceRacing s = init_twice_racing s"
| "step Persist s = fst (persist s)"
| "step Dispose s = fst (dispose s)"
| "step (LocalWrite w) s = localWrite w s"
| "step (ApplyUpdate u orig) s = applyUpdate u orig s"
| "step (TimerFires t) s = timerFires t s"
| "step (Message m) s = onmessage m s"
| "step (Network e) s = network e s"
| "step (OnStatusChange l) s = onStatusChange l s"
| "step (OffStatusChange l) s = offStatusChange l s"

definition run :: "storeEvent list \<Rightarrow> OrbitStore \<Rightarrow> OrbitStore" where
  "run evs s = fold step evs s"

definition saves :: "effect list \<Rightarrow> effect list" where
  \<comment> \<open>the \<open>save\<close> calls of a trace\<close>
  "saves tr = filter (\<lambda>e. case e of StorageSave _ _ \<Rightarrow> True | _ \<Rightarrow> False) tr"

definition posts :: "effect list \<Rightarrow> effect list" where
  \<comment> \<open>the messages published on the tab channel\<close>
  "posts tr = filter (\<lambda>e. case e of PostMessage _ \<Rightarrow> True | _ \<Rightarrow> False) tr"

definition connects :: "effect list \<Rightarrow> effect list" where
  \<comment> \<open>the \<open>connect()\<close> calls on the provider\<close>
  "connects tr = filter (\<lambda>e. e = ProviderConnect) tr"

definition loads :: "effect list \<Rightarrow> effect list" where
  \<comment> \<open>the \<open>load\<close> calls on the storage adapter\<close>
  "loads tr = filter (\<lambda>e. case e of StorageLoad _ \<Rightarrow> True | _ \<Rightarrow> False) tr"

definition applies :: "effect list \<Rightarrow> effect list" where
  \<comment> \<open>the \<open>Y.applyUpdate\<close> calls\<close>
  "applies tr = filter (\<lambda>e. case e of DocApply _ _ \<Rightarrow> True | _ \<Rightarrow> False) tr"

definition tabHandlers :: "OrbitStore \<Rightarrow> observer list" where
  \<comment> \<open>the handlers of \<open>TabSync\<close> registered on the document\<close>
  "tabHandlers s = filter (\<lambda>ob. ob \<noteq> HandleUpdate) (observers (ydoc s))"

definition netView :: "OrbitStore \<Rightarrow> WebsocketProvider option \<times> bool \<times> effect list" where
  \<comment> \<open>what the breaker is about: the provider, the flag of \<open>init\<close>, the \<open>connect()\<close> calls\<close>
  "netView s = (websocketProvider s, initialized s, connects (trace s))"

definition breakerOpen :: "OrbitStore \<Rightarrow> bool" where
  \<comment> \<open>the store has a provider and its auto-reconnect flag is cleared\<close>
  "breakerOpen s = (map_option shouldConnect (websocketProvider s) = Some False)"




subsection \<open>The tab bus\<close>

text \<open>
  A \<open>BroadcastChannel\<close> delivers a message to every other channel object of the same
  name, never to the object that posted it. A system is a list of stores on one device;
  \<open>busDeliver i m\<close> delivers the message \<open>m\<close> posted by store \<open>i\<close>.
\<close>

definition channelName :: "OrbitStore \<Rightarrow> string option" where
  "channelName s = map_option (\<lambda>ts. ''orbit-'' @ tab_storeId ts) (tabSync s)"

definition busDeliver :: "nat \<Rightarrow> SyncMessage \<Rightarrow> OrbitStore list \<Rightarrow> OrbitStore list" where
  "busDeliver i m sys =
     map (\<lambda>(j, s). if j \<noteq> i \<and> channelName s = channelName (sys ! i) then onmessage m s else s)
       (enumerate 0 sys)"

definition newMessages :: "OrbitStore \<Rightarrow> OrbitStore \<Rightarrow> SyncMessage list" where
  \<comment> \<open>the messages published between an earlier and a later state of one store\<close>
  "newMessages s s' =
     concat (map (\<lambda>e. case e of PostMessage m \<Rightarrow> [m] | _ \<Rightarrow> [])
               (drop (length (trace s)) (trace s')))"

definition writeOnBus :: "nat \<Rightarrow> Uint8Array \<Rightarrow> OrbitStore list \<Rightarrow> OrbitStore list" where
  \<comment> \<open>store \<open>i\<close> writes, and the bus delivers everything the write made it publish\<close>
  "writeOnBus i w sys =
     (let s' = localWrite w (sys ! i)
      in fold (busDeliver i) (newMessages (sys ! i) s') (sys[i := s']))"

subsection \<open>A store to run\<close>

definition exampleConfig :: OrbitConfig where
  \<comment> \<open>a storage adapter that holds a blob for the store, tab sync by default, a network URL\<close>
  "exampleConfig =
     \<lparr>cfg_storeId = ''doc'',
      cfg_storage = Some \<lparr>blobs = [(''doc'', [1, 2])], failing = False\<rparr>,
      cfg_enableTabSync = None,
      cfg_persistDebounceMs = None,
      cfg_websocketUrl = Some ''ws://localhost:1234'',
      cfg_websocketOptions = None\<rparr>"

definition exampleStore :: OrbitStore where
  \<comment> \<open>\<open>new OrbitStore(config)\<close>, then \<open>await store.init()\<close>\<close>
  "exampleStore = fst (init (newOrbitStore 0 exampleConfig))"

definition localConfig :: OrbitConfig where
  \<comment> \<open>the same without a network URL\<close>
  "localConfig = exampleConfig\<lparr>cfg_websocketUrl := None\<rparr>"

definition writtenStore :: OrbitStore where
  \<comment> \<open>the example store after one write\<close>
  "writtenStore = localWrite [3] exampleStore"

definition secondStore :: OrbitStore where
  \<comment> \<open>another store of the same \<open>storeId\<close> on the device, without storage or network\<close>
  "secondStore =
     fst (init (newOrbitStore 1 (localConfig\<lparr>cfg_storage := None\<rparr>)))"

section \<open>The minimal text diff\<close>

declare prefixLoop.simps [simp del] suffixLoop.simps [simp del]

text \<open>
  Both loops are characterised by the longest common prefix of two lists: the first
  directly, the second on the reversed remainders after the common prefix.
\<close>

lemma prefixLoop_lcp:
  "0 \<le> i \<Longrightarrow> i \<le> int (length a) \<Longrightarrow> i \<le> int (length b) \<Longrightarrow>
   prefixLoop a b i = i + int (length (longest_common_prefix (drop (nat i) a) (drop (nat i) b)))"
proof (induction a b i rule: prefixLoop.induct)
  case (1 a b i)
  show ?case
  proof (cases "i < int (length a) \<and> i < int (length b)")
    case True
    then have da: "drop (nat i) a = a ! nat i # drop (nat (i + 1)) a"
      and db: "drop (nat i) b = b ! nat i # drop (nat (i + 1)) b"
    proof -
      from True "1.prems" have la: "nat i < length a" and lb: "nat i < length b" by auto
      have sn: "nat (i + 1) = Suc (nat i)" using "1.prems" by simp
      show "drop (nat i) a = a ! nat i # drop (nat (i + 1)) a"
        unfolding sn using la by (simp add: Cons_nth_drop_Suc)
      show "drop (nat i) b = b ! nat i # drop (nat (i + 1)) b"
        unfolding sn using lb by (simp add: Cons_nth_drop_Suc)
    qed
    show ?thesis
    proof (cases "a ! nat i = b ! nat i")
      case eq: True
      with True "1.prems" have c: "charAt a i = charAt b i" by (simp add: charAt_def)
      have "prefixLoop a b i = prefixLoop a b (i + 1)"
        using True c by (subst prefixLoop.simps) simp
      also have "\<dots> = (i + 1) + int (length (longest_common_prefix (drop (nat (i + 1)) a) (drop (nat (i + 1)) b)))"
        using "1.IH" True c "1.prems" by simp
      finally show ?thesis using da db eq by simp
    next
      case ne: False
      with True "1.prems" have c: "charAt a i \<noteq> charAt b i" by (simp add: charAt_def)
      have "prefixLoop a b i = i" using c by (subst prefixLoop.simps) simp
      then show ?thesis using da db ne by simp
    qed
  next
    case False
    then have "drop (nat i) a = [] \<or> drop (nat i) b = []" using "1.prems" by auto
    then have "longest_common_prefix (drop (nat i) a) (drop (nat i) b) = []" by auto
    moreover have "prefixLoop a b i = i" using False by (subst prefixLoop.simps) auto
    ultimately show ?thesis by simp
  qed
qed

lemma suffixLoop_lcp:
  "0 \<le> p \<Longrightarrow> p \<le> int (length a) \<Longrightarrow> p \<le> int (length b) \<Longrightarrow>
   0 \<le> j \<Longrightarrow> j \<le> int (length a) - p \<Longrightarrow> j \<le> int (length b) - p \<Longrightarrow>
   suffixLoop a b p j =
     j + int (length (longest_common_prefix (drop (nat j) (rev (drop (nat p) a)))
                                            (drop (nat j) (rev (drop (nat p) b)))))"
proof (induction a b p j rule: suffixLoop.induct)
  case (1 a b p j)
  let ?ra = "rev (drop (nat p) a)" and ?rb = "rev (drop (nat p) b)"
  have lra: "int (length ?ra) = int (length a) - p" and lrb: "int (length ?rb) = int (length b) - p"
    using "1.prems" by simp_all
  show ?case
  proof (cases "j < int (length a) - p \<and> j < int (length b) - p")
    case True
    have ja: "nat j < length ?ra" and jb: "nat j < length ?rb"
      using True "1.prems" by (simp_all, linarith+)
    have sn: "nat (j + 1) = Suc (nat j)" using "1.prems" by simp
    have da: "drop (nat j) ?ra = ?ra ! nat j # drop (nat (j + 1)) ?ra"
      unfolding sn using ja by (simp add: Cons_nth_drop_Suc)
    have db: "drop (nat j) ?rb = ?rb ! nat j # drop (nat (j + 1)) ?rb"
      unfolding sn using jb by (simp add: Cons_nth_drop_Suc)
    have na: "?ra ! nat j = a ! nat (int (length a) - 1 - j)"
    proof -
      have "?ra ! nat j = drop (nat p) a ! (length (drop (nat p) a) - Suc (nat j))"
        using ja by (simp add: rev_nth)
      also have "\<dots> = a ! (nat p + (length a - nat p - Suc (nat j)))"
        using ja by simp
      also have "nat p + (length a - nat p - Suc (nat j)) = nat (int (length a) - 1 - j)"
        using True "1.prems" by auto
      finally show ?thesis .
    qed
    have nb: "?rb ! nat j = b ! nat (int (length b) - 1 - j)"
    proof -
      have "?rb ! nat j = drop (nat p) b ! (length (drop (nat p) b) - Suc (nat j))"
        using jb by (simp add: rev_nth)
      also have "\<dots> = b ! (nat p + (length b - nat p - Suc (nat j)))"
        using jb by simp
      also have "nat p + (length b - nat p - Suc (nat j)) = nat (int (length b) - 1 - j)"
        using True "1.prems" by auto
      finally show ?thesis .
    qed
    have ca: "charAt a (int (length a) - 1 - j) = Some (?ra ! nat j)"
      using True "1.prems" na by (simp add: charAt_def)
    have cb: "charAt b (int (length b) - 1 - j) = Some (?rb ! nat j)"
      using True "1.prems" nb by (simp add: charAt_def)
    show ?thesis
    proof (cases "?ra ! nat j = ?rb ! nat j")
      case eq: True
      have c: "charAt a (int (length a) - 1 - j) = charAt b (int (length b) - 1 - j)"
        using ca cb eq by simp
      have "suffixLoop a b p j = suffixLoop a b p (j + 1)"
        using True c by (subst suffixLoop.simps) simp
      also have "\<dots> = (j + 1) + int (length (longest_common_prefix (drop (nat (j + 1)) ?ra) (drop (nat (j + 1)) ?rb)))"
        using "1.IH" True c "1.prems" by simp
      finally show ?thesis using da db eq by simp
    next
      case ne: False
      have c: "charAt a (int (length a) - 1 - j) \<noteq> charAt b (int (length b) - 1 - j)"
        using ca cb ne by simp
      have "suffixLoop a b p j = j" using c by (subst suffixLoop.simps) simp
      then show ?thesis using da db ne by simp
    qed
  next
    case False
    then have "drop (nat j) ?ra = [] \<or> drop (nat j) ?rb = []" using "1.prems" by auto
    then have "longest_common_prefix (drop (nat j) ?ra) (drop (nat j) ?rb) = []" by auto
    moreover have "suffixLoop a b p j = j" using False by (subst suffixLoop.simps) auto
    ultimately show ?thesis by simp
  qed
qed


lemma commonPrefixOf_lcp:
  "commonPrefixOf a b = int (length (longest_common_prefix a b))"
  using prefixLoop_lcp [of 0 a b] by (simp add: commonPrefixOf_def)

lemma commonPrefixOf_bounds:
  "0 \<le> commonPrefixOf a b" "commonPrefixOf a b \<le> int (length a)"
  "commonPrefixOf a b \<le> int (length b)"
  using prefix_length_le [OF longest_common_prefix_prefix1 [of a b]]
        prefix_length_le [OF longest_common_prefix_prefix2 [of a b]]
  by (simp_all add: commonPrefixOf_lcp)

lemma commonSuffixOf_lcp:
  "commonSuffixOf a b =
     int (length (longest_common_prefix (rev (drop (nat (commonPrefixOf a b)) a))
                                        (rev (drop (nat (commonPrefixOf a b)) b))))"
  using suffixLoop_lcp [of "commonPrefixOf a b" a b 0] commonPrefixOf_bounds [of a b]
  by (simp add: commonSuffixOf_def)

text \<open>The shape of the two strings around the common prefix and suffix.\<close>

lemma diff_decomposition:
  obtains P S ma mb where
    "a = P @ ma @ S" "b = P @ mb @ S"
    "commonPrefixOf a b = int (length P)" "commonSuffixOf a b = int (length S)"
proof -
  define P where "P = longest_common_prefix a b"
  obtain a' where a': "a = P @ a'"
    using longest_common_prefix_prefix1 [of a b] unfolding P_def by (auto elim: prefixE)
  obtain b' where b': "b = P @ b'"
    using longest_common_prefix_prefix2 [of a b] unfolding P_def by (auto elim: prefixE)
  have p: "commonPrefixOf a b = int (length P)" by (simp add: commonPrefixOf_lcp P_def)
  define R where "R = longest_common_prefix (rev a') (rev b')"
  obtain ra where ra: "rev a' = R @ ra"
    using longest_common_prefix_prefix1 [of "rev a'" "rev b'"] unfolding R_def
    by (auto elim: prefixE)
  obtain rb where rb: "rev b' = R @ rb"
    using longest_common_prefix_prefix2 [of "rev a'" "rev b'"] unfolding R_def
    by (auto elim: prefixE)
  have da: "drop (nat (commonPrefixOf a b)) a = a'" using a' p by simp
  have db: "drop (nat (commonPrefixOf a b)) b = b'" using b' p by simp
  have s: "commonSuffixOf a b = int (length (rev R))"
    by (simp add: commonSuffixOf_lcp da db R_def)
  have "a' = rev ra @ rev R" using ra by (metis rev_append rev_rev_ident)
  moreover have "b' = rev rb @ rev R" using rb by (metis rev_append rev_rev_ident)
  ultimately have "a = P @ rev ra @ rev R" "b = P @ rev rb @ rev R"
    using a' b' by simp_all
  then show thesis using that p s by blast
qed

lemma slice_middle: "slice (P @ m @ S) (int (length P)) (int (length (P @ m @ S)) - int (length S)) = m"
  by (simp add: slice_def Let_def min_def)




lemma commonPrefixOf_empty [simp]: "commonPrefixOf a [] = 0"
  by (simp add: commonPrefixOf_lcp)

lemma commonSuffixOf_empty [simp]: "commonSuffixOf a [] = 0"
  by (simp add: commonSuffixOf_lcp)

text \<open>
  What \<open>setOrbitText\<close> calls. When the two texts are equal it makes no call.
  Otherwise it makes one transaction, which deletes \<open>oldLength - p - s\<close> units at
  \<open>p\<close> when that number is positive and then inserts the middle of the new text at
  \<open>p\<close> when that middle is not empty. Here \<open>p\<close> is the length of the longest
  common prefix of the two texts and \<open>s\<close> the length of the longest common suffix of
  what follows that prefix. Neither length is negative, for empty texts too.
\<close>

lemma setOrbitText_calls:
  "let p = commonPrefixOf oldText newText;
       s = commonSuffixOf oldText newText;
       deleteLength = int (length oldText) - p - s;
       insertLength = int (length newText) - p - s;
       middle = slice newText p (int (length newText) - s)
   in (oldText = newText \<longrightarrow> setOrbitText oldText newText = []) \<and>
      (oldText \<noteq> newText \<longrightarrow>
         setOrbitText oldText newText =
           [Transact ((if 0 < deleteLength then [Delete p deleteLength] else []) @
                      (if 0 < insertLength then [Insert p middle] else []))]) \<and>
      p = int (length (longest_common_prefix oldText newText)) \<and>
      s = int (length (longest_common_prefix (rev (drop (nat p) oldText))
                                             (rev (drop (nat p) newText)))) \<and>
      0 \<le> deleteLength \<and> 0 \<le> insertLength \<and>
      int (length middle) = insertLength"
proof -
  obtain P S ma mb where
    a: "oldText = P @ ma @ S" and b: "newText = P @ mb @ S" and
    p: "commonPrefixOf oldText newText = int (length P)" and
    s: "commonSuffixOf oldText newText = int (length S)"
    by (rule diff_decomposition)
  have mid: "slice newText (int (length P)) (int (length newText) - int (length S)) = mb"
    unfolding b by (rule slice_middle)
  have la: "int (length oldText) - int (length P) - int (length S) = int (length ma)"
    and lb: "int (length newText) - int (length P) - int (length S) = int (length mb)"
    unfolding a b by simp_all
  have ops: "oldText \<noteq> newText \<Longrightarrow>
    setOrbitText oldText newText =
      [Transact ((if 0 < int (length ma) then [Delete (int (length P)) (int (length ma))] else []) @
                 (if 0 < int (length mb) then [Insert (int (length P)) mb] else []))]"
    unfolding setOrbitText_def Let_def p s mid
    using la lb by (simp add: a b)
  show ?thesis
    unfolding Let_def p s mid la lb
    using ops commonPrefixOf_lcp [of oldText newText] commonSuffixOf_lcp [of oldText newText] p s
    by (simp add: setOrbitText_def)
qed

text \<open>
  Where a cut does not follow a high surrogate (or falls at an end of the text), the
  library's split is the plain one.
\<close>

lemma contentSplice_plain:
  "0 < n \<Longrightarrow> n < length item \<Longrightarrow> \<not> isHighSurrogate (item ! (n - 1)) \<Longrightarrow>
   contentSplice item n = (take n item, drop n item)"
proof -
  assume a: "0 < n" "n < length item" "\<not> isHighSurrogate (item ! (n - 1))"
  then have "take n item \<noteq> []" by auto
  then have "last (take n item) = item ! (n - 1)"
    using a by (simp add: last_conv_nth min_def)
  with a(3) show ?thesis by (simp add: contentSplice_def Let_def)
qed

lemma findPosition_plain:
  "cutSafe (concat y) n \<Longrightarrow>
   concat (fst (findPosition y n)) = take (nat n) (concat y) \<and>
   concat (snd (findPosition y n)) = drop (nat n) (concat y)"
proof (induction y arbitrary: n)
  case Nil
  then show ?case by simp
next
  case (Cons item right)
  show ?case
  proof (cases "n > 0")
    case False
    then show ?thesis by simp
  next
    case pos: True
    show ?thesis
    proof (cases "n < int (length item)")
      case True
      with pos Cons.prems have "\<not> isHighSurrogate ((item @ concat right) ! nat (n - 1))"
        by (auto simp: cutSafe_def)
      moreover have "nat (n - 1) < length item" using True pos by simp
      ultimately have "\<not> isHighSurrogate (item ! (nat n - 1))"
        using pos by (simp add: nth_append nat_diff_distrib)
      with True pos have "contentSplice item (nat n) = (take (nat n) item, drop (nat n) item)"
        by (intro contentSplice_plain) simp_all
      with True pos show ?thesis by simp
    next
      case False
      let ?m = "n - int (length item)"
      have "cutSafe (concat right) ?m"
      proof (cases "?m \<le> 0 \<or> int (length (concat right)) \<le> ?m")
        case True
        then show ?thesis by (auto simp: cutSafe_def)
      next
        case inside: False
        with Cons.prems have "\<not> isHighSurrogate ((item @ concat right) ! nat (n - 1))"
          by (auto simp: cutSafe_def)
        moreover have "nat (n - 1) = length item + nat (?m - 1)" using inside by linarith
        ultimately show ?thesis by (simp add: cutSafe_def)
      qed
      from Cons.IH [OF this] False pos show ?thesis
        by (simp add: split_beta nat_diff_distrib)
    qed
  qed
qed

lemma deleteText_plain:
  "cutSafe (concat r) len \<Longrightarrow> concat (deleteText r len) = drop (nat len) (concat r)"
proof (induction r arbitrary: len)
  case Nil
  then show ?case by simp
next
  case (Cons item right)
  show ?case
  proof (cases "len > 0")
    case False
    then show ?thesis by simp
  next
    case pos: True
    show ?thesis
    proof (cases "len < int (length item)")
      case True
      with pos Cons.prems have "\<not> isHighSurrogate ((item @ concat right) ! nat (len - 1))"
        by (auto simp: cutSafe_def)
      moreover have "nat (len - 1) < length item" using True pos by simp
      ultimately have "\<not> isHighSurrogate (item ! (nat len - 1))"
        using pos by (simp add: nth_append nat_diff_distrib)
      with True pos have "contentSplice item (nat len) = (take (nat len) item, drop (nat len) item)"
        by (intro contentSplice_plain) simp_all
      with True pos show ?thesis by simp
    next
      case False
      let ?m = "len - int (length item)"
      have "cutSafe (concat right) ?m"
      proof (cases "?m \<le> 0 \<or> int (length (concat right)) \<le> ?m")
        case True
        then show ?thesis by (auto simp: cutSafe_def)
      next
        case inside: False
        with Cons.prems have "\<not> isHighSurrogate ((item @ concat right) ! nat (len - 1))"
          by (auto simp: cutSafe_def)
        moreover have "nat (len - 1) = length item + nat (?m - 1)" using inside by linarith
        ultimately show ?thesis by (simp add: cutSafe_def)
      qed
      from Cons.IH [OF this] False pos show ?thesis
        by (simp add: nat_diff_distrib)
    qed
  qed
qed

lemma ytext_delete_plain:
  assumes "toString y = P @ ma @ S" "ma \<noteq> []"
    and "cutSafe (toString y) (int (length P))"
    and "cutSafe (toString y) (int (length P) + int (length ma))"
  shows "toString (ytext_delete y (int (length P)) (int (length ma))) = P @ S"
proof -
  have c: "concat y = P @ ma @ S" using assms(1) by (simp add: toString_def)
  obtain l r where f: "findPosition y (int (length P)) = (l, r)"
    by (cases "findPosition y (int (length P))")
  from findPosition_plain [of y "int (length P)"] assms(3) f
  have l: "concat l = P" and r: "concat r = ma @ S" by (simp_all add: toString_def c)
  have "cutSafe (concat r) (int (length ma))"
  proof (cases "S = []")
    case True
    then show ?thesis by (simp add: cutSafe_def r)
  next
    case False
    have "0 < length ma" "0 < length S" using assms(2) False by simp_all
    with assms(4) have "\<not> isHighSurrogate ((P @ ma @ S) ! nat (int (length P) + int (length ma) - 1))"
      unfolding cutSafe_def toString_def c by auto
    moreover have "nat (int (length P) + int (length ma) - 1) = length P + (length ma - 1)"
      using assms(2) by (cases ma) simp_all
    ultimately have "\<not> isHighSurrogate ((ma @ S) ! (length ma - 1))" by simp
    moreover have "nat (int (length ma) - 1) = length ma - 1" by simp
    ultimately show ?thesis by (simp add: cutSafe_def r)
  qed
  from deleteText_plain [OF this] have "concat (deleteText r (int (length ma))) = S"
    by (simp add: r)
  with l f assms(2) show ?thesis by (simp add: ytext_delete_def toString_def)
qed

lemma ytext_insert_plain:
  assumes "toString y = P @ S" "cutSafe (toString y) (int (length P))"
  shows "toString (ytext_insert y (int (length P)) mb) = P @ mb @ S"
proof -
  have c: "concat y = P @ S" using assms(1) by (simp add: toString_def)
  obtain l r where f: "findPosition y (int (length P)) = (l, r)"
    by (cases "findPosition y (int (length P))")
  from findPosition_plain [of y "int (length P)"] assms(2) f
  have "concat l = P" "concat r = S" by (simp_all add: toString_def c)
  with f c show ?thesis by (simp add: ytext_insert_def toString_def)
qed

text \<open>
  So the calls of \<open>setOrbitText\<close> turn the old text into the new one whenever neither
  end of the replaced region follows a high surrogate, whatever the items of the text
  are.
\<close>

lemma setOrbitText_reaches_newText:
  assumes "cutSafe (toString y) (commonPrefixOf (toString y) newText)"
    and "cutSafe (toString y)
           (int (length (toString y)) - commonSuffixOf (toString y) newText)"
  shows "toString (applyCalls (setOrbitText (toString y) newText) y) = newText"
proof (cases "toString y = newText")
  case True
  then show ?thesis by (simp add: setOrbitText_def applyCalls_def)
next
  case False
  obtain P S ma mb where
    a: "toString y = P @ ma @ S" and b: "newText = P @ mb @ S" and
    p: "commonPrefixOf (toString y) newText = int (length P)" and
    s: "commonSuffixOf (toString y) newText = int (length S)"
    by (rule diff_decomposition)
  have mid: "slice newText (int (length P)) (int (length newText) - int (length S)) = mb"
    unfolding b by (rule slice_middle)
  have calls: "setOrbitText (toString y) newText =
      [Transact ((if ma \<noteq> [] then [Delete (int (length P)) (int (length ma))] else []) @
                 (if mb \<noteq> [] then [Insert (int (length P)) mb] else []))]"
    unfolding setOrbitText_def Let_def p s mid using False by (simp add: a b)
  have c1: "cutSafe (toString y) (int (length P))" using assms(1) p by simp
  have c2: "cutSafe (toString y) (int (length P) + int (length ma))"
    using assms(2) s by (simp add: a)
  define y1 where "y1 = (if ma \<noteq> [] then ytext_delete y (int (length P)) (int (length ma)) else y)"
  have y1: "toString y1 = P @ S"
    using ytext_delete_plain [OF a _ c1 c2] a by (simp add: y1_def)
  have c3: "cutSafe (toString y1) (int (length P))"
  proof (cases "ma = []")
    case True
    then show ?thesis using c1 by (simp add: y1_def)
  next
    case False
    show ?thesis
    proof (cases "P = []")
      case True
      then show ?thesis by (simp add: cutSafe_def)
    next
      case nonempty: False
      have "0 < length ma" "0 < length P" using False nonempty by simp_all
      with c1 have "\<not> isHighSurrogate ((P @ ma @ S) ! nat (int (length P) - 1))"
        unfolding a cutSafe_def by auto
      moreover have "nat (int (length P) - 1) < length P" using \<open>0 < length P\<close> by linarith
      ultimately have "\<not> isHighSurrogate ((P @ S) ! nat (int (length P) - 1))"
        by (simp add: nth_append)
      then show ?thesis unfolding y1 cutSafe_def by simp
    qed
  qed
  have "applyCalls (setOrbitText (toString y) newText) y =
          (if mb \<noteq> [] then ytext_insert y1 (int (length P)) mb else y1)"
    unfolding calls by (simp add: applyCalls_def applyOps_def y1_def)
  moreover
  have "toString (if mb \<noteq> [] then ytext_insert y1 (int (length P)) mb else y1) = P @ mb @ S"
    using ytext_insert_plain [OF y1 c3, of mb] y1 by simp
  ultimately show ?thesis by (simp add: b)
qed

lemma setOrbitText_clears:
  "toString (applyCalls (setOrbitText (toString y) []) y) = []"
  by (rule setOrbitText_reaches_newText) (simp_all add: cutSafe_def)


lemmas text_defs = setOrbitText_def commonPrefixOf_def commonSuffixOf_def prefixLoop.simps
  suffixLoop.simps charAt_def slice_def js_def toString_def applyCalls_def applyOps_def
  ytext_delete_def ytext_insert_def contentSplice_def isHighSurrogate_def mountEffect_def
  ytext_length_def Let_def

text \<open>
  C1, at a text that one \<open>insert\<close> has filled with \<open>U+1F600\<close> and that is to become
  \<open>U+1F601\<close>. The two strings share their first unit, the high surrogate, so the
  prefix scan stops at 1: the transaction deletes one unit at position 1 and inserts
  the low surrogate of the new character there. The delete splits the item inside the
  surrogate pair, the library replaces both halves by \<open>U+FFFD\<close>, and the text after
  the call is \<open>U+FFFD\<close> followed by a lone low surrogate, not the new text.
\<close>

theorem setOrbitText_splits_surrogate_pair:
  "applyOps (mountEffect [] grinningFace) [] = [grinningFace] \<and>
   commonPrefixOf grinningFace beamingFace = 1 \<and>
   commonSuffixOf grinningFace beamingFace = 0 \<and>
   setOrbitText (toString [grinningFace]) beamingFace
     = [Transact [Delete 1 1, Insert 1 [0xDE01]]] \<and>
   toString (applyCalls (setOrbitText (toString [grinningFace]) beamingFace) [grinningFace])
     = [0xFFFD, 0xDE01] \<and>
   toString (applyCalls (setOrbitText (toString [grinningFace]) beamingFace) [grinningFace])
     \<noteq> beamingFace"
  by (simp add: grinningFace_def beamingFace_def text_defs)

text \<open>
  C2, as the code computes it. For \<open>"Hello World"\<close> and \<open>"Hello Orbit World"\<close> the
  common prefix is \<open>"Hello "\<close> (the space included), of length 6, and the common suffix
  of the rest is \<open>"World"\<close>, of length 5; the diff makes no delete call and inserts
  \<open>"Orbit "\<close> at position 6. For \<open>"abc"\<close> and \<open>"abc"\<close> it makes no call at all.
\<close>

theorem setOrbitText_hello_orbit_world:
  "commonPrefixOf (js ''Hello World'') (js ''Hello Orbit World'') = 6 \<and>
   commonSuffixOf (js ''Hello World'') (js ''Hello Orbit World'') = 5 \<and>
   setOrbitText (js ''Hello World'') (js ''Hello Orbit World'')
     = [Transact [Insert 6 (js ''Orbit '')]] \<and>
   toString (applyCalls (setOrbitText (js ''Hello World'') (js ''Hello Orbit World''))
               [js ''Hello World''])
     = js ''Hello Orbit World'' \<and>
   setOrbitText (js ''abc'') (js ''abc'') = []"
  by (simp add: text_defs)

text \<open>
  The figures of the claim are not what the code computes: the prefix length is not 5,
  the suffix length is not 6, and the transaction holds neither a delete at position 5
  nor an insert of \<open>" Orbit"\<close> at position 5.
\<close>

theorem hello_orbit_world_counterexample:
  "\<not> (commonPrefixOf (js ''Hello World'') (js ''Hello Orbit World'') = 5 \<or>
      commonSuffixOf (js ''Hello World'') (js ''Hello Orbit World'') = 6 \<or>
      Delete 5 0 \<in> set (operations (setOrbitText (js ''Hello World'') (js ''Hello Orbit World''))) \<or>
      Insert 5 (js '' Orbit'')
        \<in> set (operations (setOrbitText (js ''Hello World'') (js ''Hello Orbit World''))))"
  by (simp add: text_defs)

text \<open>
  C10. With a non-empty \<open>initialValue\<close>: the snapshot of an empty text is
  \<open>initialValue\<close>, the snapshot is never the empty string, the mount effect fills an
  empty text with \<open>initialValue\<close>, and after \<open>setText("")\<close> the text is empty,
  whatever its items were, and the snapshot is \<open>initialValue\<close> again.
\<close>

theorem useOrbitText_empty_shows_initialValue:
  assumes "initialValue \<noteq> []"
  shows "useOrbitText_getSnapshot [] initialValue = initialValue \<and>
         useOrbitText_getSnapshot existing initialValue \<noteq> [] \<and>
         toString (applyOps (mountEffect [] initialValue) []) = initialValue \<and>
         toString (applyCalls (setOrbitText (toString y) []) y) = [] \<and>
         useOrbitText_getSnapshot (toString (applyCalls (setOrbitText (toString y) []) y))
           initialValue = initialValue"
  using assms setOrbitText_clears [of y]
  by (simp add: useOrbitText_getSnapshot_def mountEffect_def ytext_length_def applyOps_def
      ytext_insert_def toString_def)

theorem useOrbitText_empty_shows_initialValue_witness:
  "js ''Hello'' \<noteq> [] \<and>
   useOrbitText_getSnapshot [] (js ''Hello'') = js ''Hello'' \<and>
   useOrbitText_getSnapshot (js ''abc'') (js ''Hello'') = js ''abc'' \<and>
   toString (applyOps (mountEffect [] (js ''Hello'')) []) = js ''Hello'' \<and>
   toString (applyCalls (setOrbitText (toString [js ''ab'', js ''c'']) []) [js ''ab'', js ''c''])
     = []"
  using useOrbitText_empty_shows_initialValue [of "js ''Hello''" "js ''abc''" "[js ''ab'', js ''c'']"]
  by (simp add: useOrbitText_getSnapshot_def js_def)

section \<open>The store\<close>

text \<open>The definitions that the proofs below unfold.\<close>

lemmas store_defs = emit_def clearTimeout_def setTimeout_def handleUpdate_def persist_def
  timerFires_def broadcastUpdate_def tab_updateHandler_def tabSync_init_def tabSync_dispose_def
  provider_connect_def provider_disconnect_def provider_destroy_def onStatusChange_def
  offStatusChange_def notifyListeners_def statusHandler_def connectionErrorHandler_def
  ydoc_destroy_def adapter_save_def adapter_dispose_def

lemmas run_defs = init_def init_begin_def init_rest_def adapter_load_def applyUpdate_def
  transact_def newContent_def localWrite_def onmessage_def newOrbitStore_def newYDoc_def
  newTabSync_def Let_def

subsection \<open>The example stores\<close>

text \<open>
  The values of the stores of the last subsection, computed from the definitions.
\<close>

lemma exampleStore_value:
  "exampleStore =
     \<lparr>ydoc = \<lparr>items = [1, 2], observers = [HandleUpdate, UpdateHandler 0], destroyed = False\<rparr>,
      storage = Some \<lparr>blobs = [(''doc'', [1, 2])], failing = False\<rparr>,
      tabSync = Some \<lparr>self = 0, tab_storeId = ''doc'', channelOpen = True,
                      onmessageSet = True, updateHandler = Some 0, closures = 1\<rparr>,
      websocketProvider = Some \<lparr>shouldConnect = True, wsconnected = False, wsconnecting = False\<rparr>,
      persistDebounceMs = 300, persistTimer = Some 0, initialized = True,
      websocketFailures = 0, maxWebsocketFailures = 3, storeId = ''doc'',
      statusListeners = [], timers = [0], nextTimer = 1,
      trace = [StorageLoad ''doc'', DocApply [1, 2] OriginUndefined, SetTimeout 0 300,
               ProviderConnect]\<rparr>"
  by (simp add: exampleStore_def exampleConfig_def newOrbitStore_def newYDoc_def newTabSync_def
      init_def init_begin_def init_rest_def adapter_load_def applyUpdate_def transact_def
      newContent_def tabSync_init_def store_defs Let_def)

lemma writtenStore_value:
  "writtenStore =
     \<lparr>ydoc = \<lparr>items = [1, 2, 3], observers = [HandleUpdate, UpdateHandler 0], destroyed = False\<rparr>,
      storage = Some \<lparr>blobs = [(''doc'', [1, 2])], failing = False\<rparr>,
      tabSync = Some \<lparr>self = 0, tab_storeId = ''doc'', channelOpen = True,
                      onmessageSet = True, updateHandler = Some 0, closures = 1\<rparr>,
      websocketProvider = Some \<lparr>shouldConnect = True, wsconnected = False, wsconnecting = False\<rparr>,
      persistDebounceMs = 300, persistTimer = Some 1, initialized = True,
      websocketFailures = 0, maxWebsocketFailures = 3, storeId = ''doc'',
      statusListeners = [], timers = [1], nextTimer = 2,
      trace = [StorageLoad ''doc'', DocApply [1, 2] OriginUndefined, SetTimeout 0 300,
               ProviderConnect, ClearTimeout 0, SetTimeout 1 300,
               PostMessage \<lparr>msg_type = ''update'', msg_storeId = ''doc'', msg_update = [3]\<rparr>]\<rparr>"
  by (simp add: writtenStore_def exampleStore_value run_defs store_defs)

lemma secondStore_value:
  "secondStore =
     \<lparr>ydoc = \<lparr>items = [], observers = [UpdateHandler 0], destroyed = False\<rparr>,
      storage = None,
      tabSync = Some \<lparr>self = 1, tab_storeId = ''doc'', channelOpen = True,
                      onmessageSet = True, updateHandler = Some 0, closures = 1\<rparr>,
      websocketProvider = None, persistDebounceMs = 300, persistTimer = None,
      initialized = True, websocketFailures = 0, maxWebsocketFailures = 3,
      storeId = ''doc'', statusListeners = [], timers = [], nextTimer = 0, trace = []\<rparr>"
  by (simp add: secondStore_def localConfig_def exampleConfig_def run_defs tabSync_init_def
      store_defs)

lemma racing_value:
  "trace (init_twice_racing (newOrbitStore 0 exampleConfig)) =
     [StorageLoad ''doc'', StorageLoad ''doc'', DocApply [1, 2] OriginUndefined,
      SetTimeout 0 300, ProviderConnect, DocApply [1, 2] OriginUndefined, ProviderConnect]"
  "observers (ydoc (init_twice_racing (newOrbitStore 0 exampleConfig))) =
     [HandleUpdate, UpdateHandler 0, UpdateHandler 1]"
  by (simp_all add: init_twice_racing_def exampleConfig_def run_defs tabSync_init_def store_defs)

subsection \<open>The status of the connection\<close>

text \<open>
  No method of the store assigns \<open>websocketProvider\<close>: a store has a provider
  after an event exactly when it had one before.
\<close>

lemma provider_runObserver [simp]:
  "websocketProvider (runObserver u orig ob s) = websocketProvider s"
  by (cases ob) (simp_all add: store_defs Let_def split: option.splits prod.splits)

lemma provider_fold_runObserver [simp]:
  "websocketProvider (fold (runObserver u orig) obs s) = websocketProvider s"
  by (induction obs arbitrary: s) simp_all

lemma provider_transact [simp]: "websocketProvider (transact u orig s) = websocketProvider s"
  by (simp add: transact_def Let_def)

lemma provider_applyUpdate [simp]: "websocketProvider (applyUpdate u orig s) = websocketProvider s"
  by (simp add: applyUpdate_def emit_def)

lemma provider_persist [simp]: "websocketProvider (fst (persist s)) = websocketProvider s"
  by (simp add: store_defs Let_def split: option.splits prod.splits)

lemma provider_init_rest [simp]:
  "(websocketProvider (init_rest s) = None) = (websocketProvider s = None)"
  by (simp add: init_rest_def store_defs Let_def split: option.splits)

lemma provider_init_resume [simp]:
  "(websocketProvider (fst (init_resume r s)) = None) = (websocketProvider s = None)"
  by (cases "(r, s)" rule: init_resume.cases) simp_all

lemma provider_init [simp]: "(websocketProvider (fst (init s)) = None) = (websocketProvider s = None)"
  by (simp add: init_def init_begin_def emit_def split: option.splits)

lemma provider_init_twice_racing [simp]:
  "(websocketProvider (init_twice_racing s) = None) = (websocketProvider s = None)"
  by (simp add: init_twice_racing_def init_begin_def emit_def split: option.splits)

lemma provider_dispose [simp]:
  "(websocketProvider (fst (dispose s)) = None) = (websocketProvider s = None)"
  by (simp add: dispose_def store_defs Let_def split: option.splits prod.splits)

lemma provider_step: "(websocketProvider (step e s) = None) = (websocketProvider s = None)"
proof (cases e)
  case (Network ne)
  then show ?thesis by (cases ne) (simp_all add: store_defs Let_def)
qed (simp_all add: localWrite_def onmessage_def timerFires_def onStatusChange_def
      offStatusChange_def split: option.splits)

lemma provider_run: "(websocketProvider (run evs s) = None) = (websocketProvider s = None)"
  unfolding run_def by (induction evs arbitrary: s) (simp_all add: provider_step)

text \<open>
  C9. The status that \<open>useOrbitStatus\<close> shows is one of \<open>connecting\<close>,
  \<open>connected\<close> and \<open>disconnected\<close>. A store without a provider shows
  \<open>disconnected\<close>, and a store constructed without a network URL has no provider,
  whatever happens to it afterwards.
\<close>

theorem status_snapshot:
  "useOrbitStatus_getSnapshot s \<in> {''connecting'', ''connected'', ''disconnected''} \<and>
   (websocketProvider s = None \<longrightarrow> useOrbitStatus_getSnapshot s = ''disconnected'') \<and>
   (cfg_websocketUrl config = None \<longrightarrow>
      useOrbitStatus_getSnapshot (run evs (newOrbitStore ident config)) = ''disconnected'')"
proof -
  have "cfg_websocketUrl config = None \<Longrightarrow> websocketProvider (run evs (newOrbitStore ident config)) = None"
    by (simp add: provider_run newOrbitStore_def)
  then show ?thesis
    by (auto simp: useOrbitStatus_getSnapshot_def split: option.splits)
qed

theorem status_snapshot_witness:
  "cfg_websocketUrl localConfig = None \<and>
   websocketProvider (newOrbitStore 0 localConfig) = None \<and>
   useOrbitStatus_getSnapshot (newOrbitStore 0 localConfig) = ''disconnected'' \<and>
   useOrbitStatus_getSnapshot (run [Init, LocalWrite [3], Persist] (newOrbitStore 0 localConfig))
     = ''disconnected'' \<and>
   useOrbitStatus_getSnapshot exampleStore \<in> {''connecting'', ''connected'', ''disconnected''}"
  using status_snapshot [of "newOrbitStore 0 localConfig" localConfig "[Init, LocalWrite [3], Persist]" 0]
    status_snapshot [of exampleStore]
  by (simp add: localConfig_def exampleConfig_def newOrbitStore_def)

subsection \<open>The circuit breaker\<close>

text \<open>
  Outside the two handlers nothing touches the provider's flag, the \<open>initialized\<close>
  flag or the \<open>connect()\<close> calls, except \<open>init\<close> on a store that is not
  initialised and \<open>dispose\<close>.
\<close>

lemma netView_runObserver [simp]: "netView (runObserver u orig ob s) = netView s"
  by (cases ob)
     (simp_all add: netView_def connects_def store_defs Let_def split: option.splits prod.splits)

lemma netView_fold_runObserver [simp]: "netView (fold (runObserver u orig) obs s) = netView s"
  by (induction obs arbitrary: s) simp_all

lemma netView_transact [simp]: "netView (transact u orig s) = netView s"
proof -
  have "netView (s\<lparr>ydoc := d\<rparr>) = netView s" for d by (simp add: netView_def)
  then show ?thesis by (simp add: transact_def Let_def)
qed

lemma netView_applyUpdate [simp]: "netView (applyUpdate u orig s) = netView s"
  by (simp add: applyUpdate_def) (simp add: netView_def emit_def connects_def)

lemma netView_persist [simp]: "netView (fst (persist s)) = netView s"
  by (simp add: netView_def connects_def store_defs Let_def split: option.splits prod.splits)

lemma netView_timerFires [simp]: "netView (timerFires t s) = netView s"
proof -
  have "netView (s\<lparr>timers := ts\<rparr>) = netView s" for ts by (simp add: netView_def)
  then show ?thesis by (simp add: timerFires_def)
qed

lemma netView_onmessage [simp]: "netView (onmessage m s) = netView s"
  by (simp add: onmessage_def split: option.splits)

lemma netView_listeners [simp]:
  "netView (onStatusChange l s) = netView s" "netView (offStatusChange l s) = netView s"
  by (simp_all add: netView_def onStatusChange_def offStatusChange_def)

lemma init_initialized: "initialized s \<Longrightarrow> init s = (s, Resolved)"
  by (simp add: init_def init_begin_def)

lemma init_twice_racing_initialized: "initialized s \<Longrightarrow> init_twice_racing s = s"
  by (simp add: init_twice_racing_def init_begin_def)

lemma connects_notifyListeners [simp]:
  "connects (trace (notifyListeners st s)) = connects (trace s)"
  by (simp add: notifyListeners_def connects_def)

lemma network_keeps_open:
  assumes "breakerOpen s"
  shows "breakerOpen (network e s) \<and> connects (trace (network e s)) = connects (trace s)
         \<and> initialized (network e s) = initialized s"
proof (cases e)
  case (Status st)
  with assms show ?thesis
    by (auto simp: breakerOpen_def statusHandler_def notifyListeners_def connects_def)
next
  case ConnectionError
  with assms show ?thesis
    by (auto simp: breakerOpen_def connectionErrorHandler_def notifyListeners_def connects_def
        provider_disconnect_def emit_def Let_def)
qed

lemma step_keeps_open:
  assumes "breakerOpen s" "initialized s" "e \<noteq> Dispose"
  shows "breakerOpen (step e s) \<and> initialized (step e s) \<and>
         connects (trace (step e s)) = connects (trace s)"
proof (cases e)
  case (Network ne)
  with assms network_keeps_open [of s ne] show ?thesis by simp
next
  case Init
  with assms show ?thesis by (simp add: init_initialized)
next
  case InitTwiceRacing
  with assms show ?thesis by (simp add: init_twice_racing_initialized)
next
  case Dispose
  with assms show ?thesis by simp
next
  case Persist
  have "netView (step e s) = netView s" using Persist by simp
  with assms show ?thesis by (simp add: netView_def breakerOpen_def)
next
  case (LocalWrite w)
  have "netView (step e s) = netView s" using LocalWrite by (simp add: localWrite_def)
  with assms show ?thesis by (simp add: netView_def breakerOpen_def)
next
  case (ApplyUpdate u orig)
  have "netView (step e s) = netView s" using ApplyUpdate by simp
  with assms show ?thesis by (simp add: netView_def breakerOpen_def)
next
  case (TimerFires t)
  have "netView (step e s) = netView s" using TimerFires by simp
  with assms show ?thesis by (simp add: netView_def breakerOpen_def)
next
  case (Message m)
  have "netView (step e s) = netView s" using Message by simp
  with assms show ?thesis by (simp add: netView_def breakerOpen_def)
next
  case (OnStatusChange l)
  have "netView (step e s) = netView s" using OnStatusChange by simp
  with assms show ?thesis by (simp add: netView_def breakerOpen_def)
next
  case (OffStatusChange l)
  have "netView (step e s) = netView s" using OffStatusChange by simp
  with assms show ?thesis by (simp add: netView_def breakerOpen_def)
qed

lemma run_keeps_open:
  "breakerOpen s \<Longrightarrow> initialized s \<Longrightarrow> Dispose \<notin> set evs \<Longrightarrow>
   breakerOpen (run evs s) \<and> initialized (run evs s) \<and>
   connects (trace (run evs s)) = connects (trace s)"
proof (induction evs arbitrary: s)
  case Nil
  then show ?case by (simp add: run_def)
next
  case (Cons e evs)
  from Cons.prems have e: "e \<noteq> Dispose" and rest: "Dispose \<notin> set evs" by auto
  from step_keeps_open [OF Cons.prems(1,2) e]
  have a: "breakerOpen (step e s)" and b: "initialized (step e s)"
    and c: "connects (trace (step e s)) = connects (trace s)" by simp_all
  from Cons.IH [OF a b rest] c show ?case by (simp add: run_def)
qed

text \<open>Errors in a row, counted from zero, below the threshold: nothing but the counter moves.\<close>

lemma errors_below_threshold:
  "websocketProvider s = Some p \<Longrightarrow> websocketFailures s + int n < maxWebsocketFailures s \<Longrightarrow>
   networkEvents (replicate n ConnectionError) s = s\<lparr>websocketFailures := websocketFailures s + int n\<rparr>"
proof (induction n arbitrary: s)
  case 0
  then show ?case by (simp add: networkEvents_def)
next
  case (Suc n)
  let ?s1 = "s\<lparr>websocketFailures := websocketFailures s + 1\<rparr>"
  have one: "network ConnectionError s = ?s1"
    using Suc.prems by (simp add: connectionErrorHandler_def Let_def)
  have "networkEvents (replicate n ConnectionError) ?s1
        = ?s1\<lparr>websocketFailures := websocketFailures ?s1 + int n\<rparr>"
    using Suc.prems by (intro Suc.IH) simp_all
  then show ?case using one by (simp add: networkEvents_def add.assoc)
qed

text \<open>
  C6. For a store with a provider: a connection error adds one to the failure counter;
  when the counter is then at or above \<open>maxFailures\<close> the auto-reconnect flag is
  cleared, \<open>disconnect()\<close> is called and every status listener is told
  \<open>disconnected\<close>, and below the threshold nothing else changes. Counted from zero,
  the breaker trips at error number \<open>maxFailures\<close> and not before. A status event
  \<open>connected\<close> sets the counter to zero, any other status leaves it, and every status
  goes to every listener. Once the flag is cleared no network event sets it again or
  calls \<open>connect()\<close>, nor does anything else that happens to an initialised store
  short of \<open>dispose()\<close>. The threshold is 3 when the configuration gives none.
\<close>

theorem circuit_breaker:
  assumes "websocketProvider s = Some p"
  shows
  "websocketFailures (network ConnectionError s) = websocketFailures s + 1 \<and>
   (maxWebsocketFailures s \<le> websocketFailures s + 1 \<longrightarrow>
      websocketProvider (network ConnectionError s) = Some (p\<lparr>shouldConnect := False\<rparr>) \<and>
      trace (network ConnectionError s) =
        trace s @ ProviderDisconnect # map (\<lambda>l. Notify l ''disconnected'') (statusListeners s)) \<and>
   (websocketFailures s + 1 < maxWebsocketFailures s \<longrightarrow>
      websocketProvider (network ConnectionError s) = Some p \<and>
      trace (network ConnectionError s) = trace s) \<and>
   (websocketFailures s = 0 \<and> maxWebsocketFailures s = int (Suc n) \<longrightarrow>
      networkEvents (replicate n ConnectionError) s = s\<lparr>websocketFailures := int n\<rparr> \<and>
      breakerOpen (networkEvents (replicate (Suc n) ConnectionError) s)) \<and>
   websocketFailures (network (Status ''connected'') s) = 0 \<and>
   (status \<noteq> ''connected'' \<longrightarrow>
      websocketFailures (network (Status status) s) = websocketFailures s) \<and>
   trace (network (Status status) s) = trace s @ map (\<lambda>l. Notify l status) (statusListeners s) \<and>
   (breakerOpen s \<longrightarrow>
      breakerOpen (networkEvents nes s) \<and>
      connects (trace (networkEvents nes s)) = connects (trace s)) \<and>
   (breakerOpen s \<and> initialized s \<and> Dispose \<notin> set evs \<longrightarrow>
      breakerOpen (run evs s) \<and> connects (trace (run evs s)) = connects (trace s)) \<and>
   ((case cfg_websocketOptions config of None \<Rightarrow> True | Some opts \<Rightarrow> maxFailures opts = None) \<longrightarrow>
      maxWebsocketFailures (newOrbitStore ident config) = 3)"
proof -
  have count: "websocketFailures (network ConnectionError s) = websocketFailures s + 1"
    using assms
    by (simp add: connectionErrorHandler_def Let_def notifyListeners_def provider_disconnect_def
        emit_def)
  have trip: "maxWebsocketFailures s \<le> websocketFailures s + 1 \<Longrightarrow>
      websocketProvider (network ConnectionError s) = Some (p\<lparr>shouldConnect := False\<rparr>) \<and>
      trace (network ConnectionError s) =
        trace s @ ProviderDisconnect # map (\<lambda>l. Notify l ''disconnected'') (statusListeners s)"
    using assms
    by (simp add: connectionErrorHandler_def Let_def notifyListeners_def provider_disconnect_def
        emit_def)
  have below: "websocketFailures s + 1 < maxWebsocketFailures s \<Longrightarrow>
      websocketProvider (network ConnectionError s) = Some p \<and>
      trace (network ConnectionError s) = trace s"
    using assms by (simp add: connectionErrorHandler_def Let_def)
  have exact: "networkEvents (replicate n ConnectionError) s = s\<lparr>websocketFailures := int n\<rparr> \<and>
      breakerOpen (networkEvents (replicate (Suc n) ConnectionError) s)"
    if f: "websocketFailures s = 0" and m: "maxWebsocketFailures s = int (Suc n)"
  proof -
    have a: "networkEvents (replicate n ConnectionError) s = s\<lparr>websocketFailures := int n\<rparr>"
      using errors_below_threshold [OF assms, of n] f m by simp
    have "replicate (Suc n) ConnectionError = replicate n ConnectionError @ [ConnectionError]"
      by (simp add: replicate_append_same)
    then have "networkEvents (replicate (Suc n) ConnectionError) s
          = network ConnectionError (networkEvents (replicate n ConnectionError) s)"
      unfolding networkEvents_def
      by (simp only: fold_append fold_Cons fold_Nil comp_apply id_apply)
    then have "breakerOpen (networkEvents (replicate (Suc n) ConnectionError) s)"
      using assms m
      by (simp add: a breakerOpen_def connectionErrorHandler_def Let_def notifyListeners_def
          provider_disconnect_def emit_def)
    with a show ?thesis by simp
  qed
  have reset: "websocketFailures (network (Status ''connected'') s) = 0"
    using assms by (simp add: statusHandler_def notifyListeners_def)
  have other: "status \<noteq> ''connected'' \<Longrightarrow>
      websocketFailures (network (Status status) s) = websocketFailures s"
    using assms by (simp add: statusHandler_def notifyListeners_def)
  have notif: "trace (network (Status status) s)
               = trace s @ map (\<lambda>l. Notify l status) (statusListeners s)"
    using assms by (simp add: statusHandler_def notifyListeners_def)
  have net: "breakerOpen (networkEvents nes s) \<and>
      connects (trace (networkEvents nes s)) = connects (trace s)" if "breakerOpen s"
    using that unfolding networkEvents_def
  proof (induction nes arbitrary: s)
    case Nil
    then show ?case by simp
  next
    case (Cons e nes)
    from network_keeps_open [OF Cons.prems, of e] Cons.IH [of "network e s"]
    show ?case by simp
  qed
  have session: "breakerOpen s \<and> initialized s \<and> Dispose \<notin> set evs \<Longrightarrow>
      breakerOpen (run evs s) \<and> connects (trace (run evs s)) = connects (trace s)"
    using run_keeps_open [of s evs] by simp
  have dflt: "(case cfg_websocketOptions config of None \<Rightarrow> True | Some opts \<Rightarrow> maxFailures opts = None)
      \<Longrightarrow> maxWebsocketFailures (newOrbitStore ident config) = 3"
    by (simp add: newOrbitStore_def split: option.splits)
  show ?thesis
    using count trip below exact reset other notif net session dflt by blast
qed

theorem circuit_breaker_witness:
  "websocketProvider exampleStore
     = Some \<lparr>shouldConnect = True, wsconnected = False, wsconnecting = False\<rparr> \<and>
   websocketFailures exampleStore = 0 \<and> maxWebsocketFailures exampleStore = int (Suc 2) \<and>
   websocketFailures (network ConnectionError exampleStore) = 1 \<and>
   websocketProvider (network ConnectionError exampleStore) = websocketProvider exampleStore \<and>
   networkEvents (replicate 2 ConnectionError) exampleStore = exampleStore\<lparr>websocketFailures := 2\<rparr> \<and>
   breakerOpen (networkEvents (replicate 3 ConnectionError) exampleStore) \<and>
   websocketFailures (network (Status ''connected'') exampleStore) = 0 \<and>
   ''connecting'' \<noteq> ''connected'' \<and>
   trace (network (Status ''connecting'') (onStatusChange 7 exampleStore))
     = trace exampleStore @ [Notify 7 ''connecting'']"
proof -
  let ?p = "\<lparr>shouldConnect = True, wsconnected = False, wsconnecting = False\<rparr>"
  have p: "websocketProvider exampleStore = Some ?p" by (simp add: exampleStore_value)
  have q: "websocketProvider (onStatusChange 7 exampleStore) = Some ?p"
    by (simp add: exampleStore_value onStatusChange_def)
  have v: "websocketFailures exampleStore = 0" "maxWebsocketFailures exampleStore = int (Suc 2)"
    by (simp_all add: exampleStore_value)
  have three: "Suc 2 = 3" by simp
  show ?thesis
    using circuit_breaker [OF p, of 2 "''connecting''" "[]" "[]" exampleConfig 0]
      circuit_breaker [OF q, of 2 "''connecting''" "[]" "[]" exampleConfig 0] p v
    unfolding three
    by (simp add: onStatusChange_def) (simp add: exampleStore_value)
qed

subsection \<open>The debounce timer\<close>



lemma tab_updateHandler_timers [simp]:
  "timers (tab_updateHandler u orig s) = timers s"
  "persistTimer (tab_updateHandler u orig s) = persistTimer s"
  by (simp_all add: tab_updateHandler_def broadcastUpdate_def emit_def split: option.splits)












text \<open>\<open>persist\<close> with a storage adapter.\<close>

lemma persist_with_storage:
  assumes "storage s = Some a"
  shows "trace (fst (persist s)) = trace s @ [StorageSave (storeId s) (encodeStateAsUpdate (ydoc s))]"
    and "timers (fst (persist s)) = timers s"
    and "persistTimer (fst (persist s)) = persistTimer s"
    and "ydoc (fst (persist s)) = ydoc s"
    and "storeId (fst (persist s)) = storeId s"
    and "snd (persist s) = (if failing a then Rejected else Resolved)"
    and "storage (fst (persist s)) =
           Some (if failing a then a
                 else a\<lparr>blobs := AList.update (storeId s) (encodeStateAsUpdate (ydoc s)) (blobs a)\<rparr>)"
    and "tabSync (fst (persist s)) = tabSync s"
    and "websocketProvider (fst (persist s)) = websocketProvider s"
  using assms by (simp_all add: persist_def adapter_save_def emit_def Let_def)

lemma saves_append [simp]: "saves (xs @ ys) = saves xs @ saves ys"
  by (simp add: saves_def)

lemma saves_simps [simp]:
  "saves [] = []"
  "saves (StorageSave k b # tr) = StorageSave k b # saves tr"
  "saves (StorageLoad k # tr) = saves tr"
  "saves (StorageDispose # tr) = saves tr"
  "saves (DocApply u orig # tr) = saves tr"
  "saves (DocDestroy # tr) = saves tr"
  "saves (SetTimeout t ms # tr) = saves tr"
  "saves (ClearTimeout t # tr) = saves tr"
  "saves (PostMessage m # tr) = saves tr"
  "saves (PostMessageError # tr) = saves tr"
  "saves (ChannelClose # tr) = saves tr"
  "saves (ProviderConnect # tr) = saves tr"
  "saves (ProviderDisconnect # tr) = saves tr"
  "saves (ProviderDestroy # tr) = saves tr"
  "saves (Notify l st # tr) = saves tr"
  by (simp_all add: saves_def)

subsection \<open>persist\<close>

text \<open>
  C3, as the code has it. In a store with a storage adapter whose debounce timer is
  pending, \<open>persist()\<close> encodes the full current state of the document and makes one
  \<open>save\<close> call with it at once; with an adapter that accepts the call the blob is
  stored and the promise resolves. \<open>persist()\<close> does not touch the timer: the same
  timeout is still pending afterwards, and when it fires it saves the state a second
  time.
\<close>

theorem persist_writes_and_keeps_timer:
  assumes "storage s = Some a" "persistTimer s = Some t" "t \<in> set (timers s)"
  shows "trace (fst (persist s)) = trace s @ [StorageSave (storeId s) (encodeStateAsUpdate (ydoc s))] \<and>
         (\<not> failing a \<longrightarrow>
            snd (persist s) = Resolved \<and>
            map_option (\<lambda>a'. map_of (blobs a') (storeId s)) (storage (fst (persist s)))
              = Some (Some (encodeStateAsUpdate (ydoc s)))) \<and>
         persistTimer (fst (persist s)) = Some t \<and>
         timers (fst (persist s)) = timers s \<and>
         t \<in> set (timers (fst (persist s))) \<and>
         saves (trace (timerFires t (fst (persist s)))) =
           saves (trace s) @ [StorageSave (storeId s) (encodeStateAsUpdate (ydoc s)),
                              StorageSave (storeId s) (encodeStateAsUpdate (ydoc s))]"
proof -
  note p = persist_with_storage [OF assms(1)]
  let ?s1 = "fst (persist s)"
  let ?s2 = "?s1\<lparr>timers := removeAll t (timers ?s1)\<rparr>"
  obtain a1 where a1: "storage ?s1 = Some a1" using p(7) by simp
  then have a2: "storage ?s2 = Some a1" by simp
  have "trace (timerFires t ?s1) = trace ?s2 @ [StorageSave (storeId ?s2) (encodeStateAsUpdate (ydoc ?s2))]"
    using assms(3) p(2) persist_with_storage(1) [OF a2] by (simp add: timerFires_def)
  then have "saves (trace (timerFires t ?s1)) =
           saves (trace s) @ [StorageSave (storeId s) (encodeStateAsUpdate (ydoc s)),
                              StorageSave (storeId s) (encodeStateAsUpdate (ydoc s))]"
    using p by simp
  then show ?thesis
    using p assms by (simp add: update_conv')
qed

theorem persist_writes_and_keeps_timer_witness:
  "storage writtenStore = Some \<lparr>blobs = [(''doc'', [1, 2])], failing = False\<rparr> \<and>
   persistTimer writtenStore = Some 1 \<and> 1 \<in> set (timers writtenStore) \<and>
   trace (fst (persist writtenStore)) = trace writtenStore @ [StorageSave ''doc'' [1, 2, 3]] \<and>
   snd (persist writtenStore) = Resolved \<and>
   timers (fst (persist writtenStore)) = [1] \<and>
   saves (trace (timerFires 1 (fst (persist writtenStore))))
     = [StorageSave ''doc'' [1, 2, 3], StorageSave ''doc'' [1, 2, 3]]"
proof -
  have h: "storage writtenStore = Some \<lparr>blobs = [(''doc'', [1, 2])], failing = False\<rparr>"
    "persistTimer writtenStore = Some 1" "1 \<in> set (timers writtenStore)"
    by (simp_all add: writtenStore_value)
  have v: "storeId writtenStore = ''doc''" "encodeStateAsUpdate (ydoc writtenStore) = [1, 2, 3]"
    "timers writtenStore = [1]" "saves (trace writtenStore) = []"
    by (simp_all add: writtenStore_value encodeStateAsUpdate_def)
  show ?thesis
    using persist_writes_and_keeps_timer [OF h] h unfolding v by simp
qed

text \<open>
  After a write the timer number 1 is pending. It is still pending after \<open>persist()\<close>,
  and its firing adds a \<open>save\<close> call.
\<close>

theorem persist_keeps_timer_counterexample:
  "persistTimer writtenStore = Some 1 \<and> 1 \<in> set (timers writtenStore) \<and>
   \<not> (1 \<notin> set (timers (fst (persist writtenStore))) \<or>
      saves (trace (timerFires 1 (fst (persist writtenStore))))
        = saves (trace (fst (persist writtenStore))))"
  by (simp add: writtenStore_value persist_def adapter_save_def timerFires_def emit_def
      encodeStateAsUpdate_def Let_def)

subsection \<open>dispose\<close>






















subsection \<open>init\<close>

lemma init_resume_resolved:
  "init_resume r s = (s', Resolved) \<Longrightarrow> initialized s'"
  by (cases "(r, s)" rule: init_resume.cases) (auto simp: init_rest_def Let_def)

lemma init_resolved_initialized:
  assumes "init s = (s', Resolved)"
  shows "initialized s'"
proof (cases "init_begin s")
  case (InitReturned s1)
  with assms have "s1 = s'" by (simp add: init_def)
  with InitReturned show ?thesis
    by (auto simp: init_begin_def init_rest_def Let_def split: if_splits option.splits)
next
  case (InitAwaitsLoad s1 r)
  with assms have "init_resume r s1 = (s', Resolved)" by (simp add: init_def)
  then show ?thesis by (rule init_resume_resolved)
qed

lemma run_replicate_Init: "initialized s \<Longrightarrow> run (replicate n Init) s = s"
  by (induction n) (simp_all add: run_def init_initialized)

lemma init_of_new:
  assumes "init (newOrbitStore ident config) = (s1, Resolved)"
  shows "length (loads (trace s1)) \<le> 1 \<and> length (applies (trace s1)) \<le> 1 \<and>
         length (tabHandlers s1) \<le> 1 \<and> length (connects (trace s1)) \<le> 1"
proof (cases "cfg_storage config")
  case None
  with assms show ?thesis
    by (auto simp: run_defs tabSync_init_def store_defs loads_def applies_def connects_def
        tabHandlers_def split: if_splits)
next
  case (Some a)
  show ?thesis
  proof (cases "adapter_load a (cfg_storeId config)")
    case LoadRejected
    with Some assms show ?thesis
      by (simp add: init_def init_begin_def newOrbitStore_def)
  next
    case (Loaded blob)
    with Some assms show ?thesis
      by (cases blob)
         (auto simp: init_def init_begin_def init_rest_def applyUpdate_def transact_def
            newOrbitStore_def newYDoc_def newTabSync_def Let_def tabSync_init_def store_defs
            loads_def applies_def connects_def tabHandlers_def split: if_splits)
  qed
qed

text \<open>
  C4, for calls that are awaited. On an initialised store \<open>init()\<close> returns at once
  and changes nothing. After an \<open>init()\<close> that resolved the store is initialised, so
  every later \<open>init()\<close> is such a call, however many there are. For a store that was
  just constructed this means that the blob is loaded at most once and applied at most
  once, that at most one tab handler is registered and that \<open>connect()\<close> is called at
  most once.
\<close>

theorem init_idempotent_when_awaited:
  "(initialized s \<longrightarrow> init_begin s = InitReturned s \<and> init s = (s, Resolved)) \<and>
   (init s = (s', Resolved) \<longrightarrow>
      initialized s' \<and> init s' = (s', Resolved) \<and> run (replicate n Init) s' = s') \<and>
   (init (newOrbitStore ident config) = (s1, Resolved) \<longrightarrow>
      length (loads (trace (run (replicate n Init) s1))) \<le> 1 \<and>
      length (applies (trace (run (replicate n Init) s1))) \<le> 1 \<and>
      length (tabHandlers (run (replicate n Init) s1)) \<le> 1 \<and>
      length (connects (trace (run (replicate n Init) s1))) \<le> 1)"
proof -
  have a: "initialized s \<Longrightarrow> init_begin s = InitReturned s \<and> init s = (s, Resolved)"
    by (simp add: init_def init_begin_def)
  have b: "init s = (s', Resolved) \<Longrightarrow>
      initialized s' \<and> init s' = (s', Resolved) \<and> run (replicate n Init) s' = s'"
    using init_resolved_initialized [of s s'] init_initialized [of s']
      run_replicate_Init [of s' n] by simp
  have c: "init (newOrbitStore ident config) = (s1, Resolved) \<Longrightarrow>
      length (loads (trace (run (replicate n Init) s1))) \<le> 1 \<and>
      length (applies (trace (run (replicate n Init) s1))) \<le> 1 \<and>
      length (tabHandlers (run (replicate n Init) s1)) \<le> 1 \<and>
      length (connects (trace (run (replicate n Init) s1))) \<le> 1"
    using init_of_new [of ident config s1] init_resolved_initialized [of "newOrbitStore ident config" s1]
      run_replicate_Init [of s1 n] by simp
  show ?thesis using a b c by blast
qed

theorem init_idempotent_when_awaited_witness:
  "initialized exampleStore \<and>
   init (newOrbitStore 0 exampleConfig) = (exampleStore, Resolved) \<and>
   init exampleStore = (exampleStore, Resolved) \<and>
   run (replicate 2 Init) exampleStore = exampleStore \<and>
   length (loads (trace (run (replicate 2 Init) exampleStore))) \<le> 1 \<and>
   length (connects (trace (run (replicate 2 Init) exampleStore))) \<le> 1"
proof -
  have r: "snd (init (newOrbitStore 0 exampleConfig)) = Resolved"
    by (simp add: exampleConfig_def run_defs)
  have i: "init (newOrbitStore 0 exampleConfig) = (exampleStore, Resolved)"
    using r by (simp add: exampleStore_def prod_eq_iff)
  have j: "initialized exampleStore" by (simp add: exampleStore_value)
  show ?thesis
    using init_idempotent_when_awaited [of exampleStore "newOrbitStore 0 exampleConfig" 2 0 exampleConfig exampleStore]
      init_idempotent_when_awaited [of "newOrbitStore 0 exampleConfig" exampleStore 2 0 exampleConfig exampleStore]
      i j
    by simp
qed

text \<open>
  Two calls of \<open>init()\<close> of which the second starts while the first awaits the load
  both pass the \<open>initialized\<close> test: the blob is loaded twice and applied twice, two
  tab handlers are registered and \<open>connect()\<close> is called twice.
\<close>

theorem init_racing_counterexample:
  "\<not> (length (loads (trace (init_twice_racing (newOrbitStore 0 exampleConfig)))) \<le> 1 \<or>
      length (applies (trace (init_twice_racing (newOrbitStore 0 exampleConfig)))) \<le> 1 \<or>
      length (tabHandlers (init_twice_racing (newOrbitStore 0 exampleConfig))) \<le> 1 \<or>
      length (connects (trace (init_twice_racing (newOrbitStore 0 exampleConfig)))) \<le> 1)"
  by (simp add: racing_value loads_def applies_def connects_def tabHandlers_def)

lemma newContent_new: "newContent newYDoc state = remdups state"
  by (simp add: newContent_def newYDoc_def)

text \<open>
  C5, as the code has it. The constructor of a store with a storage adapter registers
  \<open>handleUpdate\<close> on the document, before any \<open>init()\<close>. When the adapter holds a
  blob with content, \<open>init()\<close> applies it without an origin (the origin of the
  transaction is \<open>undefined\<close>), the update event reaches \<open>handleUpdate\<close>, and the
  debounce timer is armed; when that timer fires, the state that was just loaded is
  saved again.
\<close>

theorem init_load_arms_persist_timer:
  assumes "cfg_storage config = Some a"
    and "adapter_load a (cfg_storeId config) = Loaded (Some state)"
    and "state \<noteq> []"
  shows "observers (ydoc (newOrbitStore ident config)) = [HandleUpdate] \<and>
         snd (init (newOrbitStore ident config)) = Resolved \<and>
         applies (trace (fst (init (newOrbitStore ident config))))
           = [DocApply state OriginUndefined] \<and>
         take 3 (trace (fst (init (newOrbitStore ident config))))
           = [StorageLoad (cfg_storeId config), DocApply state OriginUndefined,
              SetTimeout 0 (persistDebounceMs (newOrbitStore ident config))] \<and>
         persistTimer (fst (init (newOrbitStore ident config))) = Some 0 \<and>
         timers (fst (init (newOrbitStore ident config))) = [0] \<and>
         saves (trace (timerFires 0 (fst (init (newOrbitStore ident config)))))
           = [StorageSave (cfg_storeId config) (remdups state)]"
proof -
  have ne: "remdups state \<noteq> []" using assms(3) by simp
  have nc: "filter (\<lambda>x. x \<notin> set []) (remdups state) = remdups state" by simp
  show ?thesis
    using assms(1,2) ne
    by (simp add: init_def init_begin_def init_rest_def newOrbitStore_def newYDoc_def
        newTabSync_def applyUpdate_def transact_def newContent_def tabSync_init_def store_defs
        Let_def applies_def encodeStateAsUpdate_def split: if_splits)
qed

theorem init_load_arms_persist_timer_witness:
  "cfg_storage exampleConfig = Some \<lparr>blobs = [(''doc'', [1, 2])], failing = False\<rparr> \<and>
   adapter_load \<lparr>blobs = [(''doc'', [1, 2])], failing = False\<rparr> (cfg_storeId exampleConfig)
     = Loaded (Some [1, 2]) \<and>
   persistTimer exampleStore = Some 0 \<and> timers exampleStore = [0] \<and>
   applies (trace exampleStore) = [DocApply [1, 2] OriginUndefined] \<and>
   saves (trace (timerFires 0 exampleStore)) = [StorageSave ''doc'' [1, 2]]"
proof -
  have h: "cfg_storage exampleConfig = Some \<lparr>blobs = [(''doc'', [1, 2])], failing = False\<rparr>"
    "adapter_load \<lparr>blobs = [(''doc'', [1, 2])], failing = False\<rparr> (cfg_storeId exampleConfig)
       = Loaded (Some [1, 2])"
    "[1, 2] \<noteq> ([] :: nat list)"
    by (simp_all add: exampleConfig_def adapter_load_def)
  have c: "cfg_storeId exampleConfig = ''doc''" by (simp add: exampleConfig_def)
  show ?thesis
    using init_load_arms_persist_timer [OF h, of 0] h(1,2)
    unfolding exampleStore_def [symmetric] c by simp
qed

text \<open>
  For the example configuration: the subscription exists before \<open>init()\<close>, a timeout
  is pending after it, and its firing makes a \<open>save\<close> call.
\<close>

theorem init_load_counterexample:
  "\<not> (HandleUpdate \<notin> set (observers (ydoc (newOrbitStore 0 exampleConfig))) \<or>
      timers (fst (init (newOrbitStore 0 exampleConfig))) = [] \<or>
      saves (trace (timerFires 0 (fst (init (newOrbitStore 0 exampleConfig))))) = [])"
  unfolding exampleStore_def [symmetric]
  by (simp add: exampleStore_value)
     (simp add: newOrbitStore_def exampleConfig_def timerFires_def persist_def adapter_save_def
        emit_def Let_def)

subsection \<open>Tab sync\<close>

text \<open>An update tagged with the identity of the store's \<open>TabSync\<close> is not published.\<close>

lemma posts_simps [simp]:
  "posts [] = []"
  "posts (xs @ ys) = posts xs @ posts ys"
  "posts (PostMessage m # tr) = PostMessage m # posts tr"
  "posts (SetTimeout t ms # tr) = posts tr"
  "posts (ClearTimeout t # tr) = posts tr"
  "posts (DocApply u orig # tr) = posts tr"
  "posts (PostMessageError # tr) = posts tr"
  by (simp_all add: posts_def)

lemma applies_simps [simp]:
  "applies [] = []"
  "applies (xs @ ys) = applies xs @ applies ys"
  "applies (DocApply u orig # tr) = DocApply u orig # applies tr"
  "applies (PostMessage m # tr) = applies tr"
  "applies (SetTimeout t ms # tr) = applies tr"
  "applies (ClearTimeout t # tr) = applies tr"
  "applies (PostMessageError # tr) = applies tr"
  by (simp_all add: applies_def)

lemma handleUpdate_tab:
  "tabSync (handleUpdate s) = tabSync s" "posts (trace (handleUpdate s)) = posts (trace s)"
  "applies (trace (handleUpdate s)) = applies (trace s)"
  by (simp_all add: handleUpdate_def setTimeout_def clearTimeout_def emit_def
      split: option.splits)

lemma tab_updateHandler_self:
  "tabSync s = Some ts \<Longrightarrow> tab_updateHandler u (OriginObject (self ts)) s = s"
  by (simp add: tab_updateHandler_def)

lemma tab_updateHandler_applies:
  "applies (trace (tab_updateHandler u orig s)) = applies (trace s)"
  by (simp add: tab_updateHandler_def broadcastUpdate_def emit_def split: option.splits)

lemma fold_runObserver_self:
  "tabSync s = Some ts \<Longrightarrow>
   posts (trace (fold (runObserver u (OriginObject (self ts))) obs s)) = posts (trace s)"
proof (induction obs arbitrary: s)
  case Nil
  then show ?case by simp
next
  case (Cons ob obs)
  show ?case
  proof (cases ob)
    case HandleUpdate
    then show ?thesis using Cons.IH [of "handleUpdate s"] Cons.prems by (simp add: handleUpdate_tab)
  next
    case (UpdateHandler c)
    then show ?thesis using Cons.IH [of s] Cons.prems by (simp add: tab_updateHandler_self)
  qed
qed

lemma fold_runObserver_applies:
  "applies (trace (fold (runObserver u orig) obs s)) = applies (trace s)"
proof (induction obs arbitrary: s)
  case Nil
  then show ?case by simp
next
  case (Cons ob obs)
  then show ?case
    by (cases ob) (simp_all add: handleUpdate_tab tab_updateHandler_applies)
qed

lemma transact_self:
  assumes "tabSync s = Some ts"
  shows "posts (trace (transact u (OriginObject (self ts)) s)) = posts (trace s)"
proof -
  let ?s1 = "s\<lparr>ydoc := (ydoc s)\<lparr>items := items (ydoc s) @ newContent (ydoc s) u\<rparr>\<rparr>"
  have "tabSync ?s1 = Some ts" using assms by simp
  from fold_runObserver_self [OF this]
  show ?thesis by (simp add: transact_def Let_def)
qed

lemma transact_applies: "applies (trace (transact u orig s)) = applies (trace s)"
  by (simp add: transact_def Let_def fold_runObserver_applies)

lemma onmessage_posts: "posts (trace (onmessage m s)) = posts (trace s)"
proof (cases "tabSync s")
  case None
  then show ?thesis by (simp add: onmessage_def)
next
  case (Some ts)
  have "tabSync (emit (DocApply (msg_update m) (OriginObject (self ts))) s) = Some ts"
    using Some by (simp add: emit_def)
  from transact_self [OF this, of "msg_update m"]
  show ?thesis using Some by (simp add: onmessage_def applyUpdate_def) (simp add: emit_def)
qed

lemma busDeliver_nth:
  "j < length sys \<Longrightarrow>
   busDeliver i m sys ! j =
     (if j \<noteq> i \<and> channelName (sys ! j) = channelName (sys ! i) then onmessage m (sys ! j)
      else sys ! j)"
  by (simp add: busDeliver_def nth_enumerate_eq)

lemma length_busDeliver [simp]: "length (busDeliver i m sys) = length sys"
  by (simp add: busDeliver_def)

lemma fold_busDeliver:
  "length (fold (busDeliver i) ms sys) = length sys"
  "i < length sys \<Longrightarrow> fold (busDeliver i) ms sys ! i = sys ! i"
  "j < length sys \<Longrightarrow>
     posts (trace (fold (busDeliver i) ms sys ! j)) = posts (trace (sys ! j))"
proof (induction ms arbitrary: sys)
  case Nil
  {
    case 1 show ?case by simp
  next
    case 2 show ?case by simp
  next
    case 3 show ?case by simp
  }
next
  case (Cons m ms)
  {
    case 1 show ?case by (simp add: Cons.IH(1))
  next
    case 2 then show ?case by (simp add: Cons.IH(2) busDeliver_nth)
  next
    case 3 then show ?case by (simp add: Cons.IH(3) busDeliver_nth onmessage_posts)
  }
qed

text \<open>
  C8. A message handled by \<open>onmessage\<close> never makes the store publish anything on the
  tab channel. In detail, for a store with a \<open>TabSync\<close>: its update handler does
  nothing for an update whose origin is this \<open>TabSync\<close> and publishes every other
  update (on an open channel); a message of type \<open>update\<close> for the store's
  \<open>storeId\<close> is applied with this \<open>TabSync\<close> as origin, and any other message is
  ignored. On the bus a message is not delivered to the store that published it, and no
  store publishes anything when it is delivered. So when a store writes and the bus
  delivers what the write published, the writer is left exactly as the write left it,
  and no other store has published anything that could come back.
\<close>

theorem tab_no_echo:
  "posts (trace (onmessage m s)) = posts (trace s) \<and>
   (tabSync s = Some ts \<longrightarrow>
      tab_updateHandler u (OriginObject (self ts)) s = s \<and>
      (orig \<noteq> OriginObject (self ts) \<and> channelOpen ts \<longrightarrow>
         trace (tab_updateHandler u orig s) =
           trace s @ [PostMessage \<lparr>msg_type = ''update'', msg_storeId = tab_storeId ts,
                                    msg_update = u\<rparr>]) \<and>
      (if channelOpen ts \<and> onmessageSet ts \<and> msg_type m = ''update'' \<and>
          msg_storeId m = tab_storeId ts
       then applies (trace (onmessage m s)) =
              applies (trace s) @ [DocApply (msg_update m) (OriginObject (self ts))]
       else onmessage m s = s)) \<and>
   (i < length sys \<longrightarrow> busDeliver i m sys ! i = sys ! i) \<and>
   (j < length sys \<longrightarrow> posts (trace (busDeliver i m sys ! j)) = posts (trace (sys ! j))) \<and>
   (i < length sys \<longrightarrow> writeOnBus i w sys ! i = localWrite w (sys ! i)) \<and>
   (i < length sys \<and> j < length sys \<and> j \<noteq> i \<longrightarrow>
      posts (trace (writeOnBus i w sys ! j)) = posts (trace (sys ! j)))"
proof -
  have a: "tabSync s = Some ts \<Longrightarrow> orig \<noteq> OriginObject (self ts) \<and> channelOpen ts \<Longrightarrow>
      trace (tab_updateHandler u orig s) =
           trace s @ [PostMessage \<lparr>msg_type = ''update'', msg_storeId = tab_storeId ts,
                                    msg_update = u\<rparr>]"
    by (simp add: tab_updateHandler_def broadcastUpdate_def emit_def)
  have b: "tabSync s = Some ts \<Longrightarrow>
      (if channelOpen ts \<and> onmessageSet ts \<and> msg_type m = ''update'' \<and>
          msg_storeId m = tab_storeId ts
       then applies (trace (onmessage m s)) =
              applies (trace s) @ [DocApply (msg_update m) (OriginObject (self ts))]
       else onmessage m s = s)"
    by (simp add: onmessage_def applyUpdate_def transact_applies) (simp add: emit_def)
  have c: "j < length sys \<Longrightarrow> posts (trace (busDeliver i m sys ! j)) = posts (trace (sys ! j))"
    by (simp add: busDeliver_nth onmessage_posts)
  have d: "i < length sys \<Longrightarrow> busDeliver i m sys ! i = sys ! i"
    by (simp add: busDeliver_nth)
  have e: "i < length sys \<Longrightarrow> writeOnBus i w sys ! i = localWrite w (sys ! i)"
    by (simp add: writeOnBus_def Let_def fold_busDeliver)
  have f: "i < length sys \<and> j < length sys \<and> j \<noteq> i \<Longrightarrow>
      posts (trace (writeOnBus i w sys ! j)) = posts (trace (sys ! j))"
    by (simp add: writeOnBus_def Let_def fold_busDeliver)
  show ?thesis
    using onmessage_posts [of m s] tab_updateHandler_self [of s ts u] a b c d e f by blast
qed

theorem tab_no_echo_witness:
  "tabSync secondStore = Some \<lparr>self = 1, tab_storeId = ''doc'', channelOpen = True,
                                onmessageSet = True, updateHandler = Some 0, closures = 1\<rparr> \<and>
   OriginNull \<noteq> OriginObject 1 \<and>
   trace (tab_updateHandler [4] OriginNull secondStore) =
     [PostMessage \<lparr>msg_type = ''update'', msg_storeId = ''doc'', msg_update = [4]\<rparr>] \<and>
   trace (onmessage \<lparr>msg_type = ''update'', msg_storeId = ''doc'', msg_update = [3]\<rparr> secondStore)
     = [DocApply [3] (OriginObject 1)] \<and>
   (0::nat) < length [exampleStore, secondStore] \<and> (1::nat) < length [exampleStore, secondStore] \<and>
   writeOnBus 0 [3] [exampleStore, secondStore] ! 0 = writtenStore \<and>
   items (ydoc (writeOnBus 0 [3] [exampleStore, secondStore] ! 1)) = [3] \<and>
   posts (trace (writeOnBus 0 [3] [exampleStore, secondStore] ! 1)) = []"
proof -
  let ?ts = "\<lparr>self = 1, tab_storeId = ''doc'', channelOpen = True,
              onmessageSet = True, updateHandler = Some 0, closures = 1\<rparr>"
  let ?m = "\<lparr>msg_type = ''update'', msg_storeId = ''doc'', msg_update = [3]\<rparr>"
  have t: "tabSync secondStore = Some ?ts" by (simp add: secondStore_value)
  have a: "trace (onmessage ?m secondStore) = [DocApply [3] (OriginObject 1)]"
    by (simp add: secondStore_value run_defs store_defs)
  have b: "items (ydoc (writeOnBus 0 [3] [exampleStore, secondStore] ! 1)) = [3]"
    by (simp add: writeOnBus_def newMessages_def busDeliver_def channelName_def
        exampleStore_value secondStore_value run_defs store_defs)
  show ?thesis
    using tab_no_echo [of ?m secondStore ?ts "[4]" OriginNull 0 "[exampleStore, secondStore]" 1 "[3]"]
      t a b
    by (simp add: writtenStore_def) (simp add: secondStore_value)
qed

end
